theory Spec2Isabelle
  imports Main
begin

section \<open>Errors and strings\<close>

text \<open>
  The routes throw \<open>AppError(message, statusCode)\<close>; the model keeps the status class.
  A failure of the database layer (a rejected promise of the SQLite wrapper) or a
  \<open>TypeError\<close> is not an \<open>AppError\<close> and is modelled as \<open>Internal\<close>.
\<close>

datatype error = BadRequest | Forbidden | NotFound | Conflict | Gone | Internal

fun statusCode :: "error \<Rightarrow> nat" where
  "statusCode BadRequest = 400"
| "statusCode Forbidden = 403"
| "statusCode NotFound = 404"
| "statusCode Conflict = 409"
| "statusCode Gone = 410"
| "statusCode Internal = 500"

text \<open>
  Strings are sequences of code units; the model uses the 8-bit \<open>char\<close> of HOL, read as
  Latin-1. \<open>isWhiteSpace\<close> is what \<open>\s\<close> and \<open>String.prototype.trim\<close> match in that range.
\<close>

definition isWhiteSpace :: "char \<Rightarrow> bool" where
  "isWhiteSpace c \<longleftrightarrow> (of_char c :: nat) \<in> {9, 10, 11, 12, 13, 32, 160}"

definition isLowerAlnum :: "char \<Rightarrow> bool" where
  "isLowerAlnum c \<longleftrightarrow>
     (let n = (of_char c :: nat) in (97 \<le> n \<and> n \<le> 122) \<or> (48 \<le> n \<and> n \<le> 57))"

definition isNameChar :: "char \<Rightarrow> bool" where
  "isNameChar c \<longleftrightarrow>
     (let n = (of_char c :: nat) in
        (97 \<le> n \<and> n \<le> 122) \<or> (65 \<le> n \<and> n \<le> 90) \<or> (48 \<le> n \<and> n \<le> 57)
        \<or> isWhiteSpace c \<or> n = 45 \<or> n = 95)"

definition toLowerCase :: "char \<Rightarrow> char" where
  "toLowerCase c =
     (let n = (of_char c :: nat) in
        if (65 \<le> n \<and> n \<le> 90) \<or> (192 \<le> n \<and> n \<le> 222 \<and> n \<noteq> 215)
        then char_of (n + 32) else c)"

definition trim :: "string \<Rightarrow> string" where
  "trim s = rev (dropWhile isWhiteSpace (rev (dropWhile isWhiteSpace s)))"

text \<open>\<open>.replace(/\s+/g, ' ')\<close>: every maximal run of white space becomes one space.\<close>

function normalizeWhitespace :: "string \<Rightarrow> string" where
  "normalizeWhitespace [] = []"
| "normalizeWhitespace (c # cs) =
     (if isWhiteSpace c then CHR '' '' # normalizeWhitespace (dropWhile isWhiteSpace cs)
      else c # normalizeWhitespace cs)"
  by pat_completeness auto
termination
  by (relation "measure length") (auto simp: length_dropWhile_le less_Suc_eq_le)

definition sanitizeString :: "string \<Rightarrow> string" where
  "sanitizeString input =
     normalizeWhitespace (filter (\<lambda>c. c \<noteq> CHR ''<'' \<and> c \<noteq> CHR ''>'') (trim input))"

definition sanitizeRoomId :: "string \<Rightarrow> string" where
  "sanitizeRoomId roomId = filter isLowerAlnum (map toLowerCase roomId)"

text \<open>JavaScript truthiness of a string, and of a possibly absent string.\<close>

definition truthy :: "string option \<Rightarrow> bool" where
  "truthy v = (case v of None \<Rightarrow> False | Some s \<Rightarrow> s \<noteq> [])"

section \<open>The State Store\<close>

text \<open>
  The two tables of \<open>runMigrations\<close>, rows in insertion order. Times are milliseconds since
  the epoch; \<open>datetime('now')\<close> has a resolution of one second.
\<close>

record room_row =
  r_id :: string
  r_title :: string
  r_description :: "string option"
  r_password :: "string option"
  is_recording_enabled :: bool
  max_participants :: int
  created_at :: int
  is_active :: bool
  creator_id :: string

record participant_row =
  p_id :: string
  room_id :: string
  name :: string
  joined_at :: int
  left_at :: "int option"
  is_audio_enabled :: bool
  is_video_enabled :: bool
  is_screen_sharing :: bool
  is_host :: bool

record store =
  rooms :: "room_row list"
  participants :: "participant_row list"

definition empty_store :: store where
  "empty_store = \<lparr>rooms = [], participants = []\<rparr>"

definition datetime_now :: "int \<Rightarrow> int" where
  "datetime_now now = (now div 1000) * 1000"

text \<open>An \<open>INSERT\<close> fails on a duplicate primary key and leaves the table as it was.\<close>

definition insert_room :: "store \<Rightarrow> room_row \<Rightarrow> store option" where
  "insert_room s r =
     (if r_id r \<in> set (map r_id (rooms s)) then None
      else Some (s\<lparr>rooms := rooms s @ [r]\<rparr>))"

definition insert_participant :: "store \<Rightarrow> participant_row \<Rightarrow> store option" where
  "insert_participant s p =
     (if p_id p \<in> set (map p_id (participants s)) then None
      else Some (s\<lparr>participants := participants s @ [p]\<rparr>))"

definition select_room :: "store \<Rightarrow> string \<Rightarrow> room_row list" where
  "select_room s i = filter (\<lambda>r. r_id r = i) (rooms s)"

text \<open>\<open>WHERE room_id = ? AND left_at IS NULL\<close>\<close>

definition active_in_room :: "store \<Rightarrow> string \<Rightarrow> participant_row list" where
  "active_in_room s i = filter (\<lambda>p. room_id p = i \<and> left_at p = None) (participants s)"

text \<open>\<open>WHERE id = ? AND left_at IS NULL\<close>\<close>

definition active_by_id :: "store \<Rightarrow> string \<Rightarrow> participant_row list" where
  "active_by_id s i = filter (\<lambda>p. p_id p = i \<and> left_at p = None) (participants s)"

text \<open>\<open>UPDATE participants SET left_at = datetime('now') WHERE room_id = ? AND left_at IS NULL\<close>\<close>

definition mark_all_left :: "store \<Rightarrow> int \<Rightarrow> string \<Rightarrow> store" where
  "mark_all_left s now i =
     s\<lparr>participants :=
         map (\<lambda>p. if room_id p = i \<and> left_at p = None
                  then p\<lparr>left_at := Some (datetime_now now)\<rparr> else p) (participants s)\<rparr>"

text \<open>\<open>UPDATE rooms SET is_active = 0 WHERE id = ?\<close>\<close>

definition deactivate_room :: "store \<Rightarrow> string \<Rightarrow> store" where
  "deactivate_room s i =
     s\<lparr>rooms := map (\<lambda>r. if r_id r = i then r\<lparr>is_active := False\<rparr> else r) (rooms s)\<rparr>"

text \<open>
  \<open>insertAndReturn\<close>: the insert, then \<open>SELECT * WHERE id = customId || lastID\<close>. With an
  empty \<open>customId\<close> the row is looked up by its numeric rowid; the model takes that lookup
  to find nothing, so the caller's field access throws.
\<close>

definition insertAndReturn_participant ::
  "store \<Rightarrow> participant_row \<Rightarrow> (error + participant_row) \<times> store" where
  "insertAndReturn_participant s p =
     (case insert_participant s p of
        None \<Rightarrow> (Inl Internal, s)
      | Some s' \<Rightarrow>
          (if p_id p = [] then (Inl Internal, s')
           else (case filter (\<lambda>q. p_id q = p_id p) (participants s') of
                   [] \<Rightarrow> (Inl Internal, s')
                 | q # _ \<Rightarrow> (Inr q, s'))))"

definition insertAndReturn_room :: "store \<Rightarrow> room_row \<Rightarrow> (error + room_row) \<times> store" where
  "insertAndReturn_room s r =
     (case insert_room s r of
        None \<Rightarrow> (Inl Internal, s)
      | Some s' \<Rightarrow>
          (if r_id r = [] then (Inl Internal, s')
           else (case select_room s' (r_id r) of
                   [] \<Rightarrow> (Inl Internal, s')
                 | q # _ \<Rightarrow> (Inr q, s'))))"

section \<open>Request validation (the zod schemas behind \<open>validateBody\<close>)\<close>

text \<open>
  A schema either rejects the body (\<open>AppError\<close> 400) or yields the parsed body, with
  strings trimmed where the schema says \<open>.trim()\<close> and defaults filled in. String checks run
  in the order they are written, so \<open>min\<close> and \<open>max\<close> see the untrimmed value.
\<close>

definition createRoomSchema ::
  "string \<Rightarrow> string option \<Rightarrow> string option \<Rightarrow> bool option \<Rightarrow> int option
   \<Rightarrow> error + (string \<times> string option \<times> string option \<times> bool \<times> int)" where
  "createRoomSchema title description password isRecordingEnabled maxParticipants =
     (if length title < 1 \<or> length title > 100 then Inl BadRequest
      else if (case description of None \<Rightarrow> False | Some d \<Rightarrow> length d > 500) then Inl BadRequest
      else if (case password of None \<Rightarrow> False
               | Some p \<Rightarrow> length p > 50 \<or> \<not> (p = [] \<or> length p \<ge> 4)) then Inl BadRequest
      else if (case maxParticipants of None \<Rightarrow> False | Some n \<Rightarrow> n < 2 \<or> n > 10)
           then Inl BadRequest
      else Inr (trim title, map_option trim description, password,
                (case isRecordingEnabled of None \<Rightarrow> False | Some b \<Rightarrow> b),
                (case maxParticipants of None \<Rightarrow> 10 | Some n \<Rightarrow> n)))"

definition joinRoomSchema ::
  "string \<Rightarrow> string \<Rightarrow> string option \<Rightarrow> error + (string \<times> string \<times> string option)" where
  "joinRoomSchema roomId participantName password =
     (if length roomId < 1 \<or> length roomId > 20
         \<or> \<not> (roomId \<noteq> [] \<and> list_all isLowerAlnum roomId) then Inl BadRequest
      else if length participantName < 1 \<or> length participantName > 50
         \<or> \<not> (trim participantName \<noteq> [] \<and> list_all isNameChar (trim participantName))
           then Inl BadRequest
      else if (case password of None \<Rightarrow> False | Some p \<Rightarrow> length p > 50) then Inl BadRequest
      else Inr (roomId, trim participantName, password))"

section \<open>Room Lifecycle Manager (routes/rooms)\<close>

definition chars :: string where
  "chars = ''abcdefghijklmnopqrstuvwxyz0123456789''"

definition charAt :: "string \<Rightarrow> nat \<Rightarrow> string" where
  "charAt s i = (if i < length s then [s ! i] else [])"

text \<open>
  \<open>rnd i\<close> is the value of \<open>Math.floor(Math.random() * chars.length)\<close> in iteration \<open>i\<close>
  of the loop; \<open>Math.random() < 1\<close> makes it smaller than 36.
\<close>

definition generateRoomId :: "(nat \<Rightarrow> nat) \<Rightarrow> string" where
  "generateRoomId rnd = concat (map (\<lambda>i. charAt chars (rnd i)) [0..<12])"

text \<open>
  The handler of \<open>POST /\<close>. \<open>creatorId\<close> is the value \<open>generateParticipantId()\<close> returned,
  \<open>now\<close> the clock. The result carries the inserted room row, of which the response is a
  projection, and the creator's id.
\<close>

definition createRoom_handler ::
  "store \<Rightarrow> int \<Rightarrow> (nat \<Rightarrow> nat) \<Rightarrow> string \<Rightarrow> string \<Rightarrow> string option \<Rightarrow> string option
   \<Rightarrow> bool option \<Rightarrow> int option \<Rightarrow> (error + room_row \<times> string) \<times> store" where
  "createRoom_handler s now rnd creatorId title description password isRecordingEnabled
       maxParticipants =
     (let sanitizedTitle = sanitizeString title;
          sanitizedDescription =
            (if truthy description then map_option sanitizeString description else None);
          roomId = generateRoomId rnd;
          cappedMaxParticipants =
            min (case maxParticipants of None \<Rightarrow> 10 | Some n \<Rightarrow> if n = 0 then 10 else n) 10;
          values = \<lparr>r_id = roomId, r_title = sanitizedTitle,
                    r_description = sanitizedDescription,
                    r_password = (if truthy password then password else None),
                    is_recording_enabled =
                      (case isRecordingEnabled of None \<Rightarrow> False | Some b \<Rightarrow> b),
                    max_participants = cappedMaxParticipants,
                    created_at = datetime_now now, is_active = True,
                    creator_id = creatorId\<rparr>
      in case insertAndReturn_room s values of
           (Inl e, s1) \<Rightarrow> (Inl e, s1)
         | (Inr room, s1) \<Rightarrow>
             (case insert_participant s1
                     \<lparr>p_id = creatorId, room_id = roomId, name = ''Host'',
                      joined_at = datetime_now now, left_at = None,
                      is_audio_enabled = True, is_video_enabled = True,
                      is_screen_sharing = False, is_host = True\<rparr> of
                None \<Rightarrow> (Inl Internal, s1)
              | Some s2 \<Rightarrow> (Inr (room, creatorId), s2)))"

text \<open>The route: \<open>validateBody(createRoomSchema)\<close>, then the handler on the parsed body.\<close>

definition createRoom ::
  "store \<Rightarrow> int \<Rightarrow> (nat \<Rightarrow> nat) \<Rightarrow> string \<Rightarrow> string \<Rightarrow> string option \<Rightarrow> string option
   \<Rightarrow> bool option \<Rightarrow> int option \<Rightarrow> (error + room_row \<times> string) \<times> store" where
  "createRoom s now rnd creatorId title description password isRecordingEnabled maxParticipants =
     (case createRoomSchema title description password isRecordingEnabled maxParticipants of
        Inl e \<Rightarrow> (Inl e, s)
      | Inr (t, d, p, r, m) \<Rightarrow> createRoom_handler s now rnd creatorId t d p (Some r) (Some m))"

text \<open>
  The handler of \<open>POST /join\<close>. \<open>participantId\<close> is the value \<open>generateParticipantId()\<close>
  returns if a new participant is inserted.
\<close>

definition joinRoom_handler ::
  "store \<Rightarrow> int \<Rightarrow> string \<Rightarrow> string \<Rightarrow> string \<Rightarrow> string option
   \<Rightarrow> (error + room_row \<times> participant_row) \<times> store" where
  "joinRoom_handler s now participantId roomId participantName password =
     (let sanitizedRoomId = sanitizeRoomId roomId;
          sanitizedParticipantName = sanitizeString participantName
      in case select_room s sanitizedRoomId of
           [] \<Rightarrow> (Inl NotFound, s)
         | room # _ \<Rightarrow>
             if \<not> is_active room then (Inl Gone, s)
             else if truthy (r_password room) \<and> r_password room \<noteq> password
               then (Inl Forbidden, s)
             else if int (length (active_in_room s sanitizedRoomId)) \<ge> max_participants room
               then (Inl Conflict, s)
             else (case filter (\<lambda>p. name p = sanitizedParticipantName)
                          (active_in_room s sanitizedRoomId) of
                     existing # _ \<Rightarrow> (Inr (room, existing), s)
                   | [] \<Rightarrow>
                       (let hostCount =
                              length (filter is_host (active_in_room s sanitizedRoomId));
                            shouldBeHost = (hostCount = 0)
                        in case insertAndReturn_participant s
                                  \<lparr>p_id = participantId, room_id = sanitizedRoomId,
                                   name = sanitizedParticipantName,
                                   joined_at = datetime_now now, left_at = None,
                                   is_audio_enabled = True, is_video_enabled = True,
                                   is_screen_sharing = False, is_host = shouldBeHost\<rparr> of
                             (Inl e, s') \<Rightarrow> (Inl e, s')
                           | (Inr participant, s') \<Rightarrow> (Inr (room, participant), s'))))"

definition joinRoom ::
  "store \<Rightarrow> int \<Rightarrow> string \<Rightarrow> string \<Rightarrow> string \<Rightarrow> string option
   \<Rightarrow> (error + room_row \<times> participant_row) \<times> store" where
  "joinRoom s now participantId roomId participantName password =
     (case joinRoomSchema roomId participantName password of
        Inl e \<Rightarrow> (Inl e, s)
      | Inr (r, n, p) \<Rightarrow> joinRoom_handler s now participantId r n p)"

text \<open>\<open>POST /leave\<close>: \<open>UPDATE \<dots> SET left_at = datetime('now') WHERE id = ? AND left_at IS NULL\<close>\<close>

definition set_left :: "store \<Rightarrow> int \<Rightarrow> string \<Rightarrow> store" where
  "set_left s now i =
     s\<lparr>participants :=
         map (\<lambda>p. if p_id p = i \<and> left_at p = None
                  then p\<lparr>left_at := Some (datetime_now now)\<rparr> else p) (participants s)\<rparr>"

definition leaveRoom :: "store \<Rightarrow> int \<Rightarrow> string option \<Rightarrow> (error + unit) \<times> store" where
  "leaveRoom s now participantId =
     (case participantId of
        None \<Rightarrow> (Inl BadRequest, s)
      | Some i \<Rightarrow> if i = [] then (Inl BadRequest, s) else (Inr (), set_left s now i))"

record CheckTimeoutResponse =
  shouldClose :: bool
  remainingMinutes :: int

text \<open>
  \<open>GET /:roomId/timeout\<close>. A path segment is never empty, so the \<open>min(1)\<close> of the parameter
  schema always holds. \<open>div\<close> on \<open>int\<close> rounds down, as \<open>Math.floor\<close> does.
\<close>

definition checkTimeout :: "store \<Rightarrow> int \<Rightarrow> string \<Rightarrow> CheckTimeoutResponse \<times> store" where
  "checkTimeout s now roomId =
     (case filter (\<lambda>r. r_id r = roomId \<and> is_active r) (rooms s) of
        [] \<Rightarrow> (\<lparr>shouldClose = True, remainingMinutes = 0\<rparr>, s)
      | room # _ \<Rightarrow>
          (let minutesElapsed = (now - created_at room) div (1000 * 60);
               remaining = max 0 (30 - minutesElapsed)
           in if minutesElapsed \<ge> 30
              then (\<lparr>shouldClose = True, remainingMinutes = 0\<rparr>,
                    mark_all_left (deactivate_room s roomId) now roomId)
              else (\<lparr>shouldClose = False, remainingMinutes = remaining\<rparr>, s)))"

text \<open>\<open>POST /:roomId/end\<close>, with \<open>validateBody(z.object({participantId: z.string().min(1)}))\<close>.\<close>

definition endMeeting :: "store \<Rightarrow> int \<Rightarrow> string \<Rightarrow> string \<Rightarrow> (error + unit) \<times> store" where
  "endMeeting s now roomId participantId =
     (if length participantId < 1 then (Inl BadRequest, s)
      else case filter (\<lambda>p. p_id p = participantId \<and> room_id p = roomId \<and> left_at p = None)
                  (participants s) of
             [] \<Rightarrow> (Inl NotFound, s)
           | h # _ \<Rightarrow>
               if \<not> is_host h then (Inl Forbidden, s)
               else (Inr (), mark_all_left (deactivate_room s roomId) now roomId))"

section \<open>Authority and Control Engine (routes/participants)\<close>

text \<open>
  \<open>PUT /:participantId\<close>. An absent field is \<open>undefined\<close>, here \<open>None\<close>. The statement is
  \<open>UPDATE participants SET \<dots> WHERE id = ?\<close>; \<open>rowCount\<close> is the number of rows it matched.
\<close>

definition updateParticipant ::
  "store \<Rightarrow> string \<Rightarrow> bool option \<Rightarrow> bool option \<Rightarrow> bool option \<Rightarrow> (error + unit) \<times> store" where
  "updateParticipant s participantId isAudioEnabled isVideoEnabled isScreenSharing =
     (if isAudioEnabled = None \<and> isVideoEnabled = None \<and> isScreenSharing = None
      then (Inl BadRequest, s)
      else
        (let upd = (\<lambda>p.
               let p1 = (case isAudioEnabled of None \<Rightarrow> p | Some b \<Rightarrow> p\<lparr>is_audio_enabled := b\<rparr>);
                   p2 = (case isVideoEnabled of None \<Rightarrow> p1 | Some b \<Rightarrow> p1\<lparr>is_video_enabled := b\<rparr>)
               in (case isScreenSharing of None \<Rightarrow> p2 | Some b \<Rightarrow> p2\<lparr>is_screen_sharing := b\<rparr>));
             rowCount = length (filter (\<lambda>p. p_id p = participantId) (participants s));
             s' = s\<lparr>participants :=
                     map (\<lambda>p. if p_id p = participantId then upd p else p) (participants s)\<rparr>
         in if rowCount = 0 then (Inl NotFound, s') else (Inr (), s')))"

text \<open>
  The four host routes repeat the same checks, in the same order, after their own checks of
  the body: the requester must be an active host, the target active and in the requester's
  room, and not a host.
\<close>

definition host_checks :: "store \<Rightarrow> string \<Rightarrow> string \<Rightarrow> error + unit" where
  "host_checks s participantId hostId =
     (case active_by_id s hostId of
        [] \<Rightarrow> Inl NotFound
      | hostRow # _ \<Rightarrow>
          if \<not> is_host hostRow then Inl Forbidden
          else (case active_by_id s participantId of
                  [] \<Rightarrow> Inl NotFound
                | target # _ \<Rightarrow>
                    if room_id target \<noteq> room_id hostRow then Inl BadRequest
                    else if is_host target then Inl Forbidden
                    else Inr ()))"

text \<open>\<open>UPDATE participants SET \<dots> WHERE id = ? AND left_at IS NULL\<close>\<close>

definition update_active ::
  "store \<Rightarrow> string \<Rightarrow> (participant_row \<Rightarrow> participant_row) \<Rightarrow> store" where
  "update_active s i f =
     s\<lparr>participants :=
         map (\<lambda>p. if p_id p = i \<and> left_at p = None then f p else p) (participants s)\<rparr>"

definition kickParticipant ::
  "store \<Rightarrow> int \<Rightarrow> string \<Rightarrow> string option \<Rightarrow> (error + unit) \<times> store" where
  "kickParticipant s now participantId hostId =
     (if \<not> truthy hostId then (Inl BadRequest, s)
      else case host_checks s participantId (the hostId) of
             Inl e \<Rightarrow> (Inl e, s)
           | Inr _ \<Rightarrow> (Inr (), set_left s now participantId))"

text \<open>\<open>mute\<close> and \<open>enable\<close> are \<open>None\<close> when the body's value is not a boolean.\<close>

definition muteParticipant ::
  "store \<Rightarrow> string \<Rightarrow> string option \<Rightarrow> bool option \<Rightarrow> (error + unit) \<times> store" where
  "muteParticipant s participantId hostId mute =
     (if \<not> truthy hostId then (Inl BadRequest, s)
      else case mute of
        None \<Rightarrow> (Inl BadRequest, s)
      | Some m \<Rightarrow>
          (case host_checks s participantId (the hostId) of
             Inl e \<Rightarrow> (Inl e, s)
           | Inr _ \<Rightarrow>
               (Inr (), update_active s participantId (\<lambda>p. p\<lparr>is_audio_enabled := \<not> m\<rparr>))))"

definition videoControl ::
  "store \<Rightarrow> string \<Rightarrow> string option \<Rightarrow> bool option \<Rightarrow> (error + unit) \<times> store" where
  "videoControl s participantId hostId enable =
     (if \<not> truthy hostId then (Inl BadRequest, s)
      else case enable of
        None \<Rightarrow> (Inl BadRequest, s)
      | Some en \<Rightarrow>
          (case host_checks s participantId (the hostId) of
             Inl e \<Rightarrow> (Inl e, s)
           | Inr _ \<Rightarrow>
               (Inr (), update_active s participantId (\<lambda>p. p\<lparr>is_video_enabled := en\<rparr>))))"

definition screenshareControl ::
  "store \<Rightarrow> string \<Rightarrow> string option \<Rightarrow> bool option \<Rightarrow> (error + unit) \<times> store" where
  "screenshareControl s participantId hostId enable =
     (if \<not> truthy hostId then (Inl BadRequest, s)
      else case enable of
        None \<Rightarrow> (Inl BadRequest, s)
      | Some en \<Rightarrow>
          (case host_checks s participantId (the hostId) of
             Inl e \<Rightarrow> (Inl e, s)
           | Inr _ \<Rightarrow>
               (Inr (), update_active s participantId (\<lambda>p. p\<lparr>is_screen_sharing := en\<rparr>))))"

section \<open>The operations on the store as requests\<close>

datatype request =
    CreateRoom int "nat \<Rightarrow> nat" string string "string option" "string option"
      "bool option" "int option"
  | JoinRoom int string string string "string option"
  | LeaveRoom int "string option"
  | CheckTimeout int string
  | EndMeeting int string string
  | UpdateParticipant string "bool option" "bool option" "bool option"
  | Kick int string "string option"
  | Mute string "string option" "bool option"
  | Video string "string option" "bool option"
  | Screenshare string "string option" "bool option"

fun handle :: "store \<Rightarrow> request \<Rightarrow> store" where
  "handle s (CreateRoom now rnd cid t d p r m) = snd (createRoom s now rnd cid t d p r m)"
| "handle s (JoinRoom now pid rid n p) = snd (joinRoom s now pid rid n p)"
| "handle s (LeaveRoom now pid) = snd (leaveRoom s now pid)"
| "handle s (CheckTimeout now rid) = snd (checkTimeout s now rid)"
| "handle s (EndMeeting now rid pid) = snd (endMeeting s now rid pid)"
| "handle s (UpdateParticipant pid a v sc) = snd (updateParticipant s pid a v sc)"
| "handle s (Kick now pid hid) = snd (kickParticipant s now pid hid)"
| "handle s (Mute pid hid m) = snd (muteParticipant s pid hid m)"
| "handle s (Video pid hid en) = snd (videoControl s pid hid en)"
| "handle s (Screenshare pid hid en) = snd (screenshareControl s pid hid en)"

text \<open>The store after a sequence of requests, served one after the other from an empty database.\<close>

definition run :: "request list \<Rightarrow> store" where
  "run reqs = foldl handle empty_store reqs"

text \<open>Every participant row belongs to a room row, and no room has two active hosts.\<close>

definition no_orphans :: "store \<Rightarrow> bool" where
  "no_orphans s \<longleftrightarrow> (\<forall>p \<in> set (participants s). room_id p \<in> r_id ` set (rooms s))"

definition active_hosts :: "store \<Rightarrow> string \<Rightarrow> participant_row list" where
  "active_hosts s i = filter is_host (active_in_room s i)"

definition store_inv :: "store \<Rightarrow> bool" where
  "store_inv s \<longleftrightarrow> no_orphans s \<and> (\<forall>i. length (active_hosts s i) \<le> 1)"

definition creator_row :: "int \<Rightarrow> string \<Rightarrow> string \<Rightarrow> participant_row" where
  "creator_row now creatorId roomId =
     \<lparr>p_id = creatorId, room_id = roomId, name = ''Host'',
      joined_at = datetime_now now, left_at = None,
      is_audio_enabled = True, is_video_enabled = True,
      is_screen_sharing = False, is_host = True\<rparr>"

section \<open>Chat Ring Buffer (routes/chat)\<close>

record ChatMessage =
  m_id :: string
  m_roomId :: string
  sender :: string
  content :: string
  timestamp :: int

text \<open>\<open>roomMessages\<close>, a \<open>Map\<close> from room ids to arrays of messages.\<close>

type_synonym chat = "string \<Rightarrow> ChatMessage list option"

definition no_messages :: chat where
  "no_messages = Map.empty"

text \<open>
  \<open>POST /send\<close>. A missing field is \<open>None\<close>; \<open>msgId\<close> is the id built from the clock and
  \<open>Math.random()\<close>. \<open>splice(0, length - 100)\<close> removes the oldest messages.
\<close>

definition sendMessage ::
  "chat \<Rightarrow> string \<Rightarrow> int \<Rightarrow> string option \<Rightarrow> string option \<Rightarrow> string option
   \<Rightarrow> (error + ChatMessage) \<times> chat" where
  "sendMessage roomMessages msgId now roomId sender' content' =
     (if \<not> truthy roomId \<or> \<not> truthy sender' \<or> \<not> truthy content'
      then (Inl BadRequest, roomMessages)
      else
        (let message = \<lparr>m_id = msgId, m_roomId = the roomId, sender = the sender',
                        content = the content', timestamp = now\<rparr>;
             messages =
               (case roomMessages (the roomId) of None \<Rightarrow> [] | Some ms \<Rightarrow> ms) @ [message];
             messages' = (if length messages > 100
                          then drop (length messages - 100) messages else messages)
         in (Inr message, roomMessages(the roomId \<mapsto> messages'))))"

definition getMessages :: "chat \<Rightarrow> string \<Rightarrow> ChatMessage list" where
  "getMessages roomMessages roomId =
     (case roomMessages roomId of None \<Rightarrow> [] | Some ms \<Rightarrow> ms)"

definition clearMessages :: "chat \<Rightarrow> string \<Rightarrow> chat" where
  "clearMessages roomMessages roomId = roomMessages(roomId := None)"

text \<open>A sequence of send requests \<open>(msgId, now, roomId, sender, content)\<close>, served in order.\<close>

fun sendAll ::
  "chat \<Rightarrow> (string \<times> int \<times> string option \<times> string option \<times> string option) list \<Rightarrow> chat" where
  "sendAll m [] = m"
| "sendAll m ((i, t, r, sn, c) # reqs) = sendAll (snd (sendMessage m i t r sn c)) reqs"

text \<open>What a send request appends, if anything.\<close>

fun appended ::
  "(string \<times> int \<times> string option \<times> string option \<times> string option) \<Rightarrow> string
   \<Rightarrow> ChatMessage list" where
  "appended (i, t, r, sn, c) roomId =
     (if truthy r \<and> truthy sn \<and> truthy c \<and> the r = roomId
      then [\<lparr>m_id = i, m_roomId = the r, sender = the sn, content = the c, timestamp = t\<rparr>]
      else [])"

text \<open>
  The process state the routers share: the database and the chat map. The chat router is
  mounted on \<open>/api/chat\<close> and is given neither the pool nor a room.
\<close>

record server =
  db :: store
  roomMessages :: chat

definition sendChatMessage ::
  "server \<Rightarrow> string \<Rightarrow> int \<Rightarrow> string option \<Rightarrow> string option \<Rightarrow> string option
   \<Rightarrow> (error + ChatMessage) \<times> server" where
  "sendChatMessage sv msgId now roomId sender' content' =
     (case sendMessage (roomMessages sv) msgId now roomId sender' content' of
        (res, m) \<Rightarrow> (res, sv\<lparr>roomMessages := m\<rparr>))"

definition listChatMessages :: "server \<Rightarrow> string \<Rightarrow> ChatMessage list" where
  "listChatMessages sv roomId = getMessages (roomMessages sv) roomId"

section \<open>Realtime Fan-out Hub (services/websocket)\<close>

datatype ws_message =
    ErrorMessage string
  | ParticipantJoined string string
  | ParticipantLeft "string option" string

text \<open>
  A client of \<open>connectedClients\<close>; \<open>ws_open\<close> is \<open>ws.readyState === WebSocket.OPEN\<close>. What
  \<open>ws.send\<close> is called with is appended to \<open>outbox\<close>, with the id of the receiving client.
  A send on an open socket is taken to succeed, so the \<open>catch\<close> branch of
  \<open>broadcastToRoom\<close> is not entered.
\<close>

record ConnectedClient =
  ws_open :: bool
  c_roomId :: "string option"
  c_participantId :: "string option"
  lastPing :: int
  isAlive :: bool

record hub =
  connectedClients :: "(string \<times> ConnectedClient) list"
  roomClientCount :: "string \<Rightarrow> nat option"
  outbox :: "(string \<times> ws_message) list"

text \<open>The client object that the \<open>connection\<close> handler stores for a new socket.\<close>

definition new_client :: "int \<Rightarrow> ConnectedClient" where
  "new_client now =
     \<lparr>ws_open = True, c_roomId = None, c_participantId = None, lastPing = now, isAlive = True\<rparr>"

definition MAX_CLIENTS_PER_ROOM :: nat where
  "MAX_CLIENTS_PER_ROOM = 10"

definition count_of :: "hub \<Rightarrow> string \<Rightarrow> nat" where
  "count_of h roomId = (case roomClientCount h roomId of None \<Rightarrow> 0 | Some n \<Rightarrow> n)"

definition recipients :: "hub \<Rightarrow> string \<Rightarrow> string option \<Rightarrow> string list" where
  "recipients h roomId excludeClientId =
     map fst (filter (\<lambda>(clientId, client).
                c_roomId client = Some roomId \<and> Some clientId \<noteq> excludeClientId
                \<and> ws_open client) (connectedClients h))"

definition broadcastToRoom :: "hub \<Rightarrow> string \<Rightarrow> ws_message \<Rightarrow> string option \<Rightarrow> hub" where
  "broadcastToRoom h roomId message excludeClientId =
     h\<lparr>outbox := outbox h @ map (\<lambda>c. (c, message)) (recipients h roomId excludeClientId)\<rparr>"

definition modify_client ::
  "hub \<Rightarrow> string \<Rightarrow> (ConnectedClient \<Rightarrow> ConnectedClient) \<Rightarrow> hub" where
  "modify_client h clientId f =
     h\<lparr>connectedClients :=
         map (\<lambda>(k, c). if k = clientId then (k, f c) else (k, c)) (connectedClients h)\<rparr>"

definition leaveRoomInternal :: "hub \<Rightarrow> string \<Rightarrow> string \<Rightarrow> hub" where
  "leaveRoomInternal h clientId roomId =
     (case map_of (connectedClients h) clientId of
        None \<Rightarrow> h
      | Some client \<Rightarrow>
          (let h1 = broadcastToRoom h roomId
                      (ParticipantLeft (c_participantId client) roomId) (Some clientId);
               currentRoomCount = count_of h1 roomId;
               h2 = (if currentRoomCount > 0
                     then h1\<lparr>roomClientCount :=
                               (roomClientCount h1)(roomId \<mapsto> currentRoomCount - 1)\<rparr>
                     else h1)
           in modify_client h2 clientId (\<lambda>c. c\<lparr>c_roomId := None, c_participantId := None\<rparr>)))"

definition handleJoinRoom :: "hub \<Rightarrow> string \<Rightarrow> string \<Rightarrow> string \<Rightarrow> hub" where
  "handleJoinRoom h clientId roomId participantId =
     (case map_of (connectedClients h) clientId of
        None \<Rightarrow> h
      | Some client \<Rightarrow>
          (let currentRoomCount = count_of h roomId
           in if currentRoomCount \<ge> MAX_CLIENTS_PER_ROOM
              then h\<lparr>outbox := outbox h @ [(clientId, ErrorMessage ''Room is full'')]\<rparr>
              else
                (let h1 = (if truthy (c_roomId client)
                           then leaveRoomInternal h clientId (the (c_roomId client)) else h);
                     h2 = modify_client h1 clientId
                            (\<lambda>c. c\<lparr>c_roomId := Some roomId,
                                    c_participantId := Some participantId\<rparr>);
                     h3 = h2\<lparr>roomClientCount :=
                               (roomClientCount h2)(roomId \<mapsto> currentRoomCount + 1)\<rparr>
                 in broadcastToRoom h3 roomId
                      (ParticipantJoined participantId roomId) (Some clientId))))"

text \<open>
  What every update of a participant row keeps: the id, the room, the name, the host flag,
  and the fact of having left.
\<close>

definition keeps :: "participant_row \<Rightarrow> participant_row \<Rightarrow> bool" where
  "keeps p p' \<longleftrightarrow> p_id p' = p_id p \<and> room_id p' = room_id p \<and> name p' = name p
                 \<and> is_host p' = is_host p \<and> (left_at p' = None \<longrightarrow> left_at p = None)"

text \<open>
  Names as the store holds them: sanitising a stored name again gives the same name, and the
  active participants of a room have different names.
\<close>

definition clean_name :: "string \<Rightarrow> bool" where
  "clean_name n \<longleftrightarrow> sanitizeString (trim n) = n"

definition active_named :: "store \<Rightarrow> string \<Rightarrow> string \<Rightarrow> participant_row list" where
  "active_named s i n = filter (\<lambda>p. name p = n) (active_in_room s i)"

definition names_inv :: "store \<Rightarrow> bool" where
  "names_inv s \<longleftrightarrow> (\<forall>p \<in> set (participants s). clean_name (name p))
                   \<and> (\<forall>i n. length (active_named s i n) \<le> 1)"


text \<open>The row \<open>joinRoom\<close> inserts for a participant that is new to the room.\<close>

definition new_participant ::
  "store \<Rightarrow> int \<Rightarrow> string \<Rightarrow> string \<Rightarrow> string \<Rightarrow> participant_row" where
  "new_participant s now participantId roomId nm =
     \<lparr>p_id = participantId, room_id = roomId, name = nm,
      joined_at = datetime_now now, left_at = None,
      is_audio_enabled = True, is_video_enabled = True,
      is_screen_sharing = False,
      is_host = (length (filter is_host (active_in_room s roomId)) = 0)\<rparr>"

text \<open>
  The handler of \<open>POST /join\<close> is an \<open>async\<close> function: it awaits its queries and then,
  separately, the \<open>INSERT\<close>, with no transaction around them, so other requests run in
  between. \<open>joinRoom_reads\<close> is the handler up to and including \<open>hostCheckQuery\<close>: it ends
  with the answer (\<open>Inl\<close>) or with the row it has decided to insert (\<open>Inr\<close>).
  \<open>joinRoom_insert\<close> is the rest, run on the store as it is by then.
\<close>

definition joinRoom_reads ::
  "store \<Rightarrow> int \<Rightarrow> string \<Rightarrow> string \<Rightarrow> string \<Rightarrow> string option
   \<Rightarrow> (error + room_row \<times> participant_row) + room_row \<times> participant_row" where
  "joinRoom_reads s now participantId roomId participantName password =
     (let sanitizedRoomId = sanitizeRoomId roomId;
          sanitizedParticipantName = sanitizeString participantName
      in case select_room s sanitizedRoomId of
           [] \<Rightarrow> Inl (Inl NotFound)
         | room # _ \<Rightarrow>
             if \<not> is_active room then Inl (Inl Gone)
             else if truthy (r_password room) \<and> r_password room \<noteq> password
               then Inl (Inl Forbidden)
             else if int (length (active_in_room s sanitizedRoomId)) \<ge> max_participants room
               then Inl (Inl Conflict)
             else (case filter (\<lambda>p. name p = sanitizedParticipantName)
                          (active_in_room s sanitizedRoomId) of
                     existing # _ \<Rightarrow> Inl (Inr (room, existing))
                   | [] \<Rightarrow>
                       Inr (room, new_participant s now participantId sanitizedRoomId
                                    sanitizedParticipantName)))"

definition joinRoom_insert ::
  "store \<Rightarrow> room_row \<times> participant_row \<Rightarrow> (error + room_row \<times> participant_row) \<times> store" where
  "joinRoom_insert s pending =
     (case pending of
        (room, row) \<Rightarrow>
          (case insertAndReturn_participant s row of
             (Inl e, s') \<Rightarrow> (Inl e, s')
           | (Inr participant, s') \<Rightarrow> (Inr (room, participant), s')))"

section \<open>Facts about the store primitives\<close>

lemma filter_fresh_room: "i \<notin> r_id ` set xs \<Longrightarrow> filter (\<lambda>r. r_id r = i) xs = []"
  by (induction xs) auto

lemma filter_fresh_participant: "i \<notin> p_id ` set xs \<Longrightarrow> filter (\<lambda>p. p_id p = i) xs = []"
  by (induction xs) auto

lemma insertAndReturn_room_Inr:
  assumes "insertAndReturn_room s r = (Inr q, s')"
  shows "q = r \<and> s' = s\<lparr>rooms := rooms s @ [r]\<rparr> \<and> r_id r \<notin> r_id ` set (rooms s)
         \<and> r_id r \<noteq> []"
  using assms
  by (auto simp: insertAndReturn_room_def insert_room_def select_room_def filter_fresh_room
      split: if_splits list.splits)

lemma insertAndReturn_participant_Inr:
  assumes "insertAndReturn_participant s p = (Inr q, s')"
  shows "q = p \<and> s' = s\<lparr>participants := participants s @ [p]\<rparr>
         \<and> p_id p \<notin> p_id ` set (participants s) \<and> p_id p \<noteq> []"
  using assms
  by (auto simp: insertAndReturn_participant_def insert_participant_def filter_fresh_participant
      split: if_splits list.splits)

lemma insertAndReturn_participant_Inl:
  assumes "insertAndReturn_participant s p = (Inl e, s')"
  shows "e = Internal \<and> (s' = s \<or> s' = s\<lparr>participants := participants s @ [p]\<rparr>)"
  using assms
  by (auto simp: insertAndReturn_participant_def insert_participant_def filter_fresh_participant
      split: if_splits list.splits)

lemma insertAndReturn_room_Inl:
  assumes "insertAndReturn_room s r = (Inl e, s')"
  shows "e = Internal \<and> (s' = s \<or> s' = s\<lparr>rooms := rooms s @ [r]\<rparr>)"
  using assms
  by (auto simp: insertAndReturn_room_def insert_room_def select_room_def filter_fresh_room
      split: if_splits list.splits)

section \<open>createRoom\<close>

lemma createRoom_handler_Inr:
  assumes "createRoom_handler s now rnd cid t d p r m = (Inr (room, c), s')"
  shows "c = cid \<and> r_id room = generateRoomId rnd \<and> is_active room
       \<and> max_participants room
           = min (case m of None \<Rightarrow> 10 | Some n \<Rightarrow> if n = 0 then 10 else n) 10
       \<and> r_password room = (if truthy p then p else None)
       \<and> r_id room \<notin> r_id ` set (rooms s) \<and> r_id room \<noteq> []
       \<and> cid \<notin> p_id ` set (participants s)
       \<and> rooms s' = rooms s @ [room]
       \<and> participants s' = participants s @ [creator_row now cid (r_id room)]"
proof -
  let ?v = "\<lparr>r_id = generateRoomId rnd, r_title = sanitizeString t,
              r_description = (if truthy d then map_option sanitizeString d else None),
              r_password = (if truthy p then p else None),
              is_recording_enabled = (case r of None \<Rightarrow> False | Some b \<Rightarrow> b),
              max_participants =
                min (case m of None \<Rightarrow> 10 | Some n \<Rightarrow> if n = 0 then 10 else n) 10,
              created_at = datetime_now now, is_active = True, creator_id = cid\<rparr>"
  obtain res s1 where ir: "insertAndReturn_room s ?v = (res, s1)" by fastforce
  from assms ir obtain q where q: "res = Inr q"
    by (cases res) (auto simp: createRoom_handler_def Let_def)
  from insertAndReturn_room_Inr[OF ir[unfolded q]]
  have 1: "q = ?v" "s1 = s\<lparr>rooms := rooms s @ [?v]\<rparr>" "r_id ?v \<notin> r_id ` set (rooms s)"
    "r_id ?v \<noteq> []"
    by blast+
  have h: "createRoom_handler s now rnd cid t d p r m =
      (case insert_participant s1 (creator_row now cid (generateRoomId rnd)) of
         None \<Rightarrow> (Inl Internal, s1) | Some s2 \<Rightarrow> (Inr (q, cid), s2))"
    by (simp add: createRoom_handler_def Let_def ir q creator_row_def)
  with assms obtain s2 where
    s2: "insert_participant s1 (creator_row now cid (generateRoomId rnd)) = Some s2"
    and eqs: "room = q" "c = cid" "s' = s2"
    by (auto split: option.splits)
  from s2 have 2: "cid \<notin> p_id ` set (participants s1)"
      "s2 = s1\<lparr>participants := participants s1 @ [creator_row now cid (generateRoomId rnd)]\<rparr>"
    by (auto simp: insert_participant_def creator_row_def split: if_splits)
  have 3: "participants s1 = participants s" "rooms s1 = rooms s @ [?v]"
    by (simp_all add: 1(2))
  show ?thesis
    unfolding eqs 2(2) 1(1) using 1(3,4) 2(1) 3 by simp
qed

lemma createRoom_Inr:
  assumes "createRoom s now rnd cid t d p r m = (Inr (room, c), s')"
  shows "\<exists>t' d'. createRoomSchema t d p r m
            = Inr (t', d', p, (case r of None \<Rightarrow> False | Some b \<Rightarrow> b),
                   (case m of None \<Rightarrow> 10 | Some n \<Rightarrow> n))
          \<and> createRoom_handler s now rnd cid t' d' p
               (Some (case r of None \<Rightarrow> False | Some b \<Rightarrow> b))
               (Some (case m of None \<Rightarrow> 10 | Some n \<Rightarrow> n)) = (Inr (room, c), s')"
proof -
  from assms obtain t' d' p' r' m' where
    v: "createRoomSchema t d p r m = Inr (t', d', p', r', m')"
    and h: "createRoom_handler s now rnd cid t' d' p' (Some r') (Some m') = (Inr (room, c), s')"
    by (auto simp: createRoom_def split: sum.splits)
  from v have "p' = p" "r' = (case r of None \<Rightarrow> False | Some b \<Rightarrow> b)"
    "m' = (case m of None \<Rightarrow> 10 | Some n \<Rightarrow> n)"
    by (auto simp: createRoomSchema_def split: if_splits)
  with v h show ?thesis by auto
qed

lemma createRoomSchema_max:
  assumes "createRoomSchema t d p r m = Inr (t', d', p', r', m')"
  shows "2 \<le> m' \<and> m' \<le> 10 \<and> m' = (case m of None \<Rightarrow> 10 | Some n \<Rightarrow> n)"
  using assms by (auto simp: createRoomSchema_def split: if_splits option.splits)

text \<open>
  C5 (as amended). The route rejects a \<open>maxParticipants\<close> outside \<open>[2,10]\<close> with
  \<open>BadRequest\<close> and creates nothing; a value inside the range is stored as it is, an absent
  one becomes 10, and the room row that is created has its \<open>max_participants\<close> in \<open>[2,10]\<close>.
\<close>

theorem createRoom_maxParticipants:
  "(\<forall>n. maxP = Some n \<and> (n < 2 \<or> n > 10) \<longrightarrow>
        createRoom s now rnd cid t d p r maxP = (Inl BadRequest, s))
   \<and> (\<forall>room c s'. createRoom s now rnd cid t d p r maxP = (Inr (room, c), s') \<longrightarrow>
        max_participants room = (case maxP of None \<Rightarrow> 10 | Some n \<Rightarrow> n)
        \<and> 2 \<le> max_participants room \<and> max_participants room \<le> 10
        \<and> rooms s' = rooms s @ [room])"
proof (intro conjI allI impI)
  fix n assume "maxP = Some n \<and> (n < 2 \<or> 10 < n)"
  then show "createRoom s now rnd cid t d p r maxP = (Inl BadRequest, s)"
    by (auto simp: createRoom_def createRoomSchema_def)
next
  fix room c s'
  assume a: "createRoom s now rnd cid t d p r maxP = (Inr (room, c), s')"
  from createRoom_Inr[OF a] obtain t' d' where
    v: "createRoomSchema t d p r maxP
          = Inr (t', d', p, (case r of None \<Rightarrow> False | Some b \<Rightarrow> b),
                 (case maxP of None \<Rightarrow> 10 | Some n \<Rightarrow> n))"
    and h: "createRoom_handler s now rnd cid t' d' p
               (Some (case r of None \<Rightarrow> False | Some b \<Rightarrow> b))
               (Some (case maxP of None \<Rightarrow> 10 | Some n \<Rightarrow> n)) = (Inr (room, c), s')"
    by blast
  note m = createRoomSchema_max[OF v]
  note H = createRoom_handler_Inr[OF h]
  from H m show "max_participants room = (case maxP of None \<Rightarrow> 10 | Some n \<Rightarrow> n)"
    by auto
  from H m show "2 \<le> max_participants room" by auto
  from H m show "max_participants room \<le> 10" by auto
  from H show "rooms s' = rooms s @ [room]" by blast
qed

theorem createRoom_maxParticipants_witness:
  "createRoom empty_store 0 (\<lambda>i. i) ''c1'' ''Standup'' None None None (Some 15)
     = (Inl BadRequest, empty_store)
   \<and> \<not> isl (fst (createRoom empty_store 0 (\<lambda>i. i) ''c1'' ''Standup'' None None None (Some 2)))
   \<and> max_participants
       (fst (projr (fst (createRoom empty_store 0 (\<lambda>i. i) ''c1'' ''Standup'' None None None
                          (Some 2))))) = 2"
proof -
  let ?c = "createRoom empty_store 0 (\<lambda>i. i) ''c1'' ''Standup'' None None None (Some 2)"
  have ok: "\<not> isl (fst ?c)" by code_simp
  then obtain room c s' where e: "?c = (Inr (room, c), s')"
    by (cases ?c; cases "fst ?c") auto
  have "(15::int) > 10" by simp
  with createRoom_maxParticipants[of "Some 15" empty_store 0 "\<lambda>i. i" "''c1''" "''Standup''"
      None None None]
  have a: "createRoom empty_store 0 (\<lambda>i. i) ''c1'' ''Standup'' None None None (Some 15)
     = (Inl BadRequest, empty_store)" by blast
  from createRoom_maxParticipants[of "Some 2" empty_store 0 "\<lambda>i. i" "''c1''" "''Standup''"
      None None None] e
  have "max_participants room = 2" by auto
  with a ok e show ?thesis by simp
qed

text \<open>
  The claim as it was stated fails: a request for 15 participants is not clamped to 10, it is
  rejected and no room is created.
\<close>

theorem createRoom_clamp_counterexample:
  "createRoom empty_store 0 (\<lambda>i. i) ''c1'' ''Standup'' None None None (Some 15)
     = (Inl BadRequest, empty_store)"
  by code_simp

section \<open>The store invariant\<close>

lemma active_hosts_filter:
  "active_hosts s i = filter (\<lambda>p. room_id p = i \<and> left_at p = None \<and> is_host p) (participants s)"
  by (auto simp: active_hosts_def active_in_room_def intro: filter_cong)

lemma no_orphans_alt:
  "no_orphans s \<longleftrightarrow> set (map room_id (participants s)) \<subseteq> set (map r_id (rooms s))"
  by (auto simp: no_orphans_def)

lemma keeps_filter_le:
  "list_all2 keeps xs ys \<Longrightarrow>
   length (filter (\<lambda>p. room_id p = i \<and> left_at p = None \<and> is_host p) ys)
     \<le> length (filter (\<lambda>p. room_id p = i \<and> left_at p = None \<and> is_host p) xs)"
  by (induction rule: list_all2_induct) (auto simp: keeps_def)

lemma keeps_room_ids: "list_all2 keeps xs ys \<Longrightarrow> map room_id ys = map room_id xs"
  by (induction rule: list_all2_induct) (auto simp: keeps_def)

lemma keeps_map: "(\<And>p. p \<in> set xs \<Longrightarrow> keeps p (f p)) \<Longrightarrow> list_all2 keeps xs (map f xs)"
  by (induction xs) auto

lemma store_inv_shrink:
  assumes inv: "store_inv s"
    and r: "map r_id (rooms s') = map r_id (rooms s)"
    and k: "list_all2 keeps (participants s) (participants s')"
  shows "store_inv s'"
proof -
  have "map room_id (participants s') = map room_id (participants s)"
    by (rule keeps_room_ids[OF k])
  then have "no_orphans s'"
    using inv r unfolding store_inv_def no_orphans_alt by simp
  moreover have "length (active_hosts s' i) \<le> 1" for i
  proof -
    have "length (active_hosts s' i) \<le> length (active_hosts s i)"
      unfolding active_hosts_filter by (rule keeps_filter_le[OF k])
    also have "\<dots> \<le> 1" using inv by (simp add: store_inv_def)
    finally show ?thesis .
  qed
  ultimately show ?thesis by (simp add: store_inv_def)
qed

lemma deactivate_room_ids: "map r_id (rooms (deactivate_room s i)) = map r_id (rooms s)"
  by (simp add: deactivate_room_def comp_def)

lemma deactivate_room_participants: "participants (deactivate_room s i) = participants s"
  by (simp add: deactivate_room_def)

lemma mark_all_left_rooms: "rooms (mark_all_left s now i) = rooms s"
  by (simp add: mark_all_left_def)

lemma mark_all_left_keeps:
  "list_all2 keeps (participants s) (participants (mark_all_left s now i))"
  unfolding mark_all_left_def by (simp, rule keeps_map) (simp add: keeps_def)

lemma set_left_keeps: "list_all2 keeps (participants s) (participants (set_left s now i))"
  unfolding set_left_def by (simp, rule keeps_map) (simp add: keeps_def)

lemma set_left_rooms: "rooms (set_left s now i) = rooms s"
  by (simp add: set_left_def)

lemma update_active_keeps:
  "(\<And>p. keeps p (f p)) \<Longrightarrow> list_all2 keeps (participants s) (participants (update_active s i f))"
  unfolding update_active_def by (simp, rule keeps_map) (simp add: keeps_def)

lemma update_active_rooms: "rooms (update_active s i f) = rooms s"
  by (simp add: update_active_def)

lemma close_room_inv:
  "store_inv s \<Longrightarrow> store_inv (mark_all_left (deactivate_room s i) now i)"
  by (rule store_inv_shrink[where s = s])
     (simp_all add: mark_all_left_rooms deactivate_room_ids
        mark_all_left_keeps[of "deactivate_room s i", unfolded deactivate_room_participants])

lemma leaveRoom_inv: "store_inv s \<Longrightarrow> store_inv (snd (leaveRoom s now pid))"
  by (auto simp: leaveRoom_def set_left_rooms set_left_keeps split: option.splits
      intro: store_inv_shrink[where s = s])

lemma checkTimeout_inv: "store_inv s \<Longrightarrow> store_inv (snd (checkTimeout s now rid))"
  by (auto simp: checkTimeout_def Let_def close_room_inv split: list.splits)

lemma endMeeting_inv: "store_inv s \<Longrightarrow> store_inv (snd (endMeeting s now rid pid))"
  by (auto simp: endMeeting_def close_room_inv split: list.splits)

lemma updateParticipant_inv:
  "store_inv s \<Longrightarrow> store_inv (snd (updateParticipant s pid a v sc))"
proof -
  assume inv: "store_inv s"
  define upd where "upd = (\<lambda>p::participant_row.
      let p1 = (case a of None \<Rightarrow> p | Some b \<Rightarrow> p\<lparr>is_audio_enabled := b\<rparr>);
          p2 = (case v of None \<Rightarrow> p1 | Some b \<Rightarrow> p1\<lparr>is_video_enabled := b\<rparr>)
      in (case sc of None \<Rightarrow> p2 | Some b \<Rightarrow> p2\<lparr>is_screen_sharing := b\<rparr>))"
  define s' where
    "s' = s\<lparr>participants := map (\<lambda>p. if p_id p = pid then upd p else p) (participants s)\<rparr>"
  have k: "keeps p (upd p)" for p
    by (simp add: keeps_def upd_def Let_def split: option.splits)
  have k': "keeps p (if p_id p = pid then upd p else p)" for p
    using k[of p] by (simp add: keeps_def)
  have 1: "list_all2 keeps (participants s) (participants s')"
    unfolding s'_def using k' by (simp add: keeps_map)
  have 2: "map r_id (rooms s') = map r_id (rooms s)" by (simp add: s'_def)
  have "store_inv s'"
    by (rule store_inv_shrink[OF inv 2 1])
  moreover have "snd (updateParticipant s pid a v sc) = s \<or> snd (updateParticipant s pid a v sc) = s'"
    unfolding updateParticipant_def s'_def upd_def Let_def by simp
  ultimately show ?thesis using inv by auto
qed

lemma kick_inv: "store_inv s \<Longrightarrow> store_inv (snd (kickParticipant s now pid hid))"
  by (auto simp: kickParticipant_def set_left_rooms set_left_keeps split: sum.splits
      intro: store_inv_shrink[where s = s])

lemma mute_inv: "store_inv s \<Longrightarrow> store_inv (snd (muteParticipant s pid hid m))"
  by (auto simp: muteParticipant_def update_active_rooms keeps_def
      split: sum.splits option.splits
      intro!: store_inv_shrink[where s = s] update_active_keeps)

lemma video_inv: "store_inv s \<Longrightarrow> store_inv (snd (videoControl s pid hid m))"
  by (auto simp: videoControl_def update_active_rooms keeps_def
      split: sum.splits option.splits
      intro!: store_inv_shrink[where s = s] update_active_keeps)

lemma screenshare_inv: "store_inv s \<Longrightarrow> store_inv (snd (screenshareControl s pid hid m))"
  by (auto simp: screenshareControl_def update_active_rooms keeps_def
      split: sum.splits option.splits
      intro!: store_inv_shrink[where s = s] update_active_keeps)

lemma add_room_inv:
  assumes "store_inv s"
  shows "store_inv (s\<lparr>rooms := rooms s @ [v]\<rparr>)"
  using assms by (auto simp: store_inv_def no_orphans_def active_hosts_def active_in_room_def)

lemma add_participant_inv:
  assumes inv: "store_inv s"
    and r: "room_id p \<in> r_id ` set (rooms s)"
    and h: "is_host p \<Longrightarrow> left_at p = None \<Longrightarrow> active_hosts s (room_id p) = []"
  shows "store_inv (s\<lparr>participants := participants s @ [p]\<rparr>)"
proof -
  let ?s' = "s\<lparr>participants := participants s @ [p]\<rparr>"
  have "no_orphans ?s'"
    using inv r by (auto simp: store_inv_def no_orphans_def)
  moreover have "length (active_hosts ?s' i) \<le> 1" for i
  proof -
    have le: "length (active_hosts s i) \<le> 1" using inv by (simp add: store_inv_def)
    have eq: "active_hosts ?s' i = active_hosts s i
            @ (if room_id p = i \<and> left_at p = None \<and> is_host p then [p] else [])"
      by (simp add: active_hosts_filter)
    show ?thesis
    proof (cases "room_id p = i \<and> left_at p = None \<and> is_host p")
      case True
      with h have "active_hosts s i = []" by auto
      with eq True show ?thesis by simp
    next
      case False
      with eq le show ?thesis by simp
    qed
  qed
  ultimately show ?thesis by (simp add: store_inv_def)
qed

lemma fresh_room_no_active:
  assumes "no_orphans s" "i \<notin> r_id ` set (rooms s)"
  shows "active_in_room s i = []"
  using assms by (auto simp: no_orphans_def active_in_room_def filter_empty_conv)

lemma createRoom_handler_cases:
  "snd (createRoom_handler s now rnd cid t d p r m) = s
   \<or> (\<exists>v. r_id v = generateRoomId rnd \<and> r_id v \<notin> r_id ` set (rooms s)
          \<and> (snd (createRoom_handler s now rnd cid t d p r m) = s\<lparr>rooms := rooms s @ [v]\<rparr>
              \<or> snd (createRoom_handler s now rnd cid t d p r m)
                 = (s\<lparr>rooms := rooms s @ [v]\<rparr>)
                     \<lparr>participants := participants s @ [creator_row now cid (r_id v)]\<rparr>))"
  (is "?R = s \<or> (\<exists>v. ?P v)")
proof -
  define v where "v = \<lparr>r_id = generateRoomId rnd, r_title = sanitizeString t,
              r_description = (if truthy d then map_option sanitizeString d else None),
              r_password = (if truthy p then p else None),
              is_recording_enabled = (case r of None \<Rightarrow> False | Some b \<Rightarrow> b),
              max_participants =
                min (case m of None \<Rightarrow> 10 | Some n \<Rightarrow> if n = 0 then 10 else n) 10,
              created_at = datetime_now now, is_active = True, creator_id = cid\<rparr>"
  define c where "c = creator_row now cid (generateRoomId rnd)"
  have idv: "r_id v = generateRoomId rnd" by (simp add: v_def)
  obtain res s1 where ir: "insertAndReturn_room s v = (res, s1)" by fastforce
  have h: "createRoom_handler s now rnd cid t d p r m =
      (case res of Inl e \<Rightarrow> (Inl e, s1)
       | Inr q \<Rightarrow> (case insert_participant s1 c of
            None \<Rightarrow> (Inl Internal, s1) | Some s2 \<Rightarrow> (Inr (q, cid), s2)))"
    using ir unfolding v_def c_def
    by (cases res) (simp_all add: createRoom_handler_def Let_def creator_row_def)
  have ip: "insert_participant s1 c = None
            \<or> insert_participant s1 c = Some (s1\<lparr>participants := participants s1 @ [c]\<rparr>)"
    by (simp add: insert_participant_def)
  show ?thesis
  proof (cases res)
    case (Inl e)
    with h have R: "?R = s1" by simp
    from insertAndReturn_room_Inl[OF ir[unfolded Inl]]
    have "s1 = s \<or> s1 = s\<lparr>rooms := rooms s @ [v]\<rparr>" by blast
    then show ?thesis
    proof
      assume "s1 = s" with R show ?thesis by simp
    next
      assume a: "s1 = s\<lparr>rooms := rooms s @ [v]\<rparr>"
      have "r_id v \<notin> r_id ` set (rooms s)"
      proof
        assume "r_id v \<in> r_id ` set (rooms s)"
        then have "insertAndReturn_room s v = (Inl Internal, s)"
          by (simp add: insertAndReturn_room_def insert_room_def)
        with ir have "s1 = s" by simp
        then have "rooms s1 = rooms s" by simp
        moreover have "rooms s1 = rooms s @ [v]" unfolding a by simp
        ultimately show False by simp
      qed
      with R a idv have "?P v" by simp
      then show ?thesis by blast
    qed
  next
    case (Inr q)
    from insertAndReturn_room_Inr[OF ir[unfolded Inr]]
    have s1': "s1 = s\<lparr>rooms := rooms s @ [v]\<rparr>" and fresh: "r_id v \<notin> r_id ` set (rooms s)"
      by blast+
    from ip show ?thesis
    proof
      assume "insert_participant s1 c = None"
      with h Inr have "?R = s\<lparr>rooms := rooms s @ [v]\<rparr>"
        by (simp add: s1')
      with fresh idv have "?P v" by simp
      then show ?thesis by blast
    next
      assume "insert_participant s1 c = Some (s1\<lparr>participants := participants s1 @ [c]\<rparr>)"
      with h Inr have "?R = (s\<lparr>rooms := rooms s @ [v]\<rparr>)
                           \<lparr>participants := participants s @ [creator_row now cid (r_id v)]\<rparr>"
        by (simp add: s1' c_def idv)
      with fresh idv have "?P v" by simp
      then show ?thesis by blast
    qed
  qed
qed

lemma createRoom_inv:
  assumes inv: "store_inv s"
  shows "store_inv (snd (createRoom s now rnd cid t d p r m))"
proof (cases "createRoomSchema t d p r m")
  case (Inl e)
  then show ?thesis using inv by (simp add: createRoom_def)
next
  case (Inr b)
  obtain t' d' p' r' m' where b: "b = (t', d', p', r', m')" by (cases b) auto
  have eq: "snd (createRoom s now rnd cid t d p r m)
        = snd (createRoom_handler s now rnd cid t' d' p' (Some r') (Some m'))"
    by (simp add: createRoom_def Inr b)
  from createRoom_handler_cases[of s now rnd cid t' d' p' "Some r'" "Some m'"]
  show ?thesis unfolding eq
  proof (elim disjE exE conjE)
    assume "snd (createRoom_handler s now rnd cid t' d' p' (Some r') (Some m')) = s"
    with inv show "store_inv (snd (createRoom_handler s now rnd cid t' d' p' (Some r') (Some m')))"
      by simp
  next
    fix v
    assume "snd (createRoom_handler s now rnd cid t' d' p' (Some r') (Some m'))
              = s\<lparr>rooms := rooms s @ [v]\<rparr>"
    with add_room_inv[OF inv, of v]
    show "store_inv (snd (createRoom_handler s now rnd cid t' d' p' (Some r') (Some m')))"
      by simp
  next
    fix v
    assume fresh: "r_id v \<notin> r_id ` set (rooms s)"
      and e: "snd (createRoom_handler s now rnd cid t' d' p' (Some r') (Some m'))
              = (s\<lparr>rooms := rooms s @ [v]\<rparr>)
                   \<lparr>participants := participants s @ [creator_row now cid (r_id v)]\<rparr>"
    let ?s1 = "s\<lparr>rooms := rooms s @ [v]\<rparr>"
    have i1: "store_inv ?s1" by (rule add_room_inv[OF inv])
    have "active_in_room s (r_id v) = []"
      using inv fresh by (auto simp: store_inv_def intro: fresh_room_no_active)
    then have "active_hosts ?s1 (r_id v) = []"
      by (simp add: active_hosts_def active_in_room_def)
    then have "store_inv (?s1\<lparr>participants := participants ?s1 @ [creator_row now cid (r_id v)]\<rparr>)"
      by (intro add_participant_inv[OF i1]) (simp_all add: creator_row_def)
    then show "store_inv (snd (createRoom_handler s now rnd cid t' d' p' (Some r') (Some m')))"
      by (simp add: e)
  qed
qed

section \<open>joinRoom\<close>

lemma joinRoom_handler_admitted:
  assumes "select_room s (sanitizeRoomId rid) = room # rest" "is_active room"
    "\<not> (truthy (r_password room) \<and> r_password room \<noteq> pw)"
    "int (length (active_in_room s (sanitizeRoomId rid))) < max_participants room"
  shows "joinRoom_handler s now pid rid nm pw =
    (case filter (\<lambda>p. name p = sanitizeString nm) (active_in_room s (sanitizeRoomId rid)) of
       existing # _ \<Rightarrow> (Inr (room, existing), s)
     | [] \<Rightarrow> (case insertAndReturn_participant s
                     (new_participant s now pid (sanitizeRoomId rid) (sanitizeString nm)) of
                (Inl e, s') \<Rightarrow> (Inl e, s')
              | (Inr q, s') \<Rightarrow> (Inr (room, q), s')))"
proof (cases "filter (\<lambda>p. name p = sanitizeString nm) (active_in_room s (sanitizeRoomId rid))")
  case Nil
  with assms show ?thesis
    by (auto simp: joinRoom_handler_def Let_def new_participant_def)
next
  case (Cons a list)
  with assms show ?thesis
    by (simp add: joinRoom_handler_def Let_def)
qed

lemma joinRoom_handler_rejected:
  assumes "select_room s (sanitizeRoomId rid) = []
     \<or> (\<exists>room rest. select_room s (sanitizeRoomId rid) = room # rest \<and>
          (\<not> is_active room \<or> (truthy (r_password room) \<and> r_password room \<noteq> pw)
           \<or> int (length (active_in_room s (sanitizeRoomId rid))) \<ge> max_participants room))"
  shows "snd (joinRoom_handler s now pid rid nm pw) = s"
  using assms by (auto simp: joinRoom_handler_def Let_def)

lemma joinRoom_handler_state:
  "snd (joinRoom_handler s now pid rid nm pw) = s
   \<or> (select_room s (sanitizeRoomId rid) \<noteq> []
      \<and> snd (joinRoom_handler s now pid rid nm pw)
          = s\<lparr>participants := participants s
                 @ [new_participant s now pid (sanitizeRoomId rid) (sanitizeString nm)]\<rparr>)"
  (is "?R = s \<or> ?B")
proof (cases "select_room s (sanitizeRoomId rid)")
  case Nil
  then show ?thesis using joinRoom_handler_rejected[of s rid] by simp
next
  case (Cons room rest)
  show ?thesis
  proof (cases "is_active room \<and> \<not> (truthy (r_password room) \<and> r_password room \<noteq> pw)
      \<and> int (length (active_in_room s (sanitizeRoomId rid))) < max_participants room")
    case False
    with Cons have "?R = s"
      by (intro joinRoom_handler_rejected) auto
    then show ?thesis by simp
  next
    case True
    define np where "np = new_participant s now pid (sanitizeRoomId rid) (sanitizeString nm)"
    obtain res s' where ir: "insertAndReturn_participant s np = (res, s')" by fastforce
    have s': "s' = s \<or> s' = s\<lparr>participants := participants s @ [np]\<rparr>"
      using insertAndReturn_participant_Inl[of s np _ s'] insertAndReturn_participant_Inr[of s np _ s'] ir
      by (cases res) auto
    from True Cons have e: "joinRoom_handler s now pid rid nm pw =
      (case filter (\<lambda>p. name p = sanitizeString nm) (active_in_room s (sanitizeRoomId rid)) of
       existing # _ \<Rightarrow> (Inr (room, existing), s)
     | [] \<Rightarrow> (case (res, s') of
                (Inl e, s') \<Rightarrow> (Inl e, s')
              | (Inr q, s') \<Rightarrow> (Inr (room, q), s')))"
      unfolding ir[symmetric] np_def by (intro joinRoom_handler_admitted) auto
    have "?R = s \<or> ?R = s'"
      unfolding e by (cases res) (auto split: list.splits)
    with s' Cons show ?thesis unfolding np_def by auto
  qed
qed

lemma joinRoom_inv:
  assumes inv: "store_inv s"
  shows "store_inv (snd (joinRoom s now pid rid nm pw))"
proof (cases "joinRoomSchema rid nm pw")
  case (Inl e)
  then show ?thesis using inv by (simp add: joinRoom_def)
next
  case (Inr b)
  obtain r n p where b: "b = (r, n, p)" by (cases b) auto
  have eq: "snd (joinRoom s now pid rid nm pw) = snd (joinRoom_handler s now pid r n p)"
    by (simp add: joinRoom_def Inr b)
  define np where "np = new_participant s now pid (sanitizeRoomId r) (sanitizeString n)"
  from joinRoom_handler_state[of s now pid r n p]
  show ?thesis unfolding eq
  proof
    assume "snd (joinRoom_handler s now pid r n p) = s"
    with inv show "store_inv (snd (joinRoom_handler s now pid r n p))" by simp
  next
    assume a: "select_room s (sanitizeRoomId r) \<noteq> []
      \<and> snd (joinRoom_handler s now pid r n p)
          = s\<lparr>participants := participants s
                 @ [new_participant s now pid (sanitizeRoomId r) (sanitizeString n)]\<rparr>"
    then have "\<exists>x \<in> set (rooms s). r_id x = sanitizeRoomId r"
      by (auto simp: select_room_def filter_empty_conv)
    then have "sanitizeRoomId r \<in> r_id ` set (rooms s)" by force
    then have 1: "room_id np \<in> r_id ` set (rooms s)"
      by (simp add: np_def new_participant_def)
    have 2: "is_host np \<Longrightarrow> active_hosts s (room_id np) = []"
      by (simp add: np_def new_participant_def active_hosts_def)
    have "store_inv (s\<lparr>participants := participants s @ [np]\<rparr>)"
      using 1 2 by (intro add_participant_inv[OF inv]) auto
    with a show "store_inv (snd (joinRoom_handler s now pid r n p))"
      by (simp add: np_def)
  qed
qed

lemma handle_inv: "store_inv s \<Longrightarrow> store_inv (handle s r)"
  by (cases r)
     (simp_all add: createRoom_inv joinRoom_inv leaveRoom_inv checkTimeout_inv endMeeting_inv
        updateParticipant_inv kick_inv mute_inv video_inv screenshare_inv)

lemma foldl_handle_inv: "store_inv s \<Longrightarrow> store_inv (foldl handle s reqs)"
  by (induction reqs arbitrary: s) (simp_all add: handle_inv)

lemma empty_store_inv: "store_inv empty_store"
  by (simp add: store_inv_def no_orphans_def empty_store_def active_hosts_def active_in_room_def)

lemma run_inv: "store_inv (run reqs)"
  unfolding run_def by (rule foldl_handle_inv[OF empty_store_inv])

lemma joinRoom_handler_rejected_error:
  assumes "select_room s (sanitizeRoomId rid) = []
     \<or> (\<exists>room rest. select_room s (sanitizeRoomId rid) = room # rest \<and>
          (\<not> is_active room \<or> (truthy (r_password room) \<and> r_password room \<noteq> pw)
           \<or> int (length (active_in_room s (sanitizeRoomId rid))) \<ge> max_participants room))"
  shows "isl (fst (joinRoom_handler s now pid rid nm pw))"
  using assms by (auto simp: joinRoom_handler_def Let_def)

lemma joinRoom_handler_Inr:
  assumes ok: "joinRoom_handler s now pid rid nm pw = (Inr (room, q), s')"
  shows "(\<exists>rest. select_room s (sanitizeRoomId rid) = room # rest) \<and> is_active room
     \<and> \<not> (truthy (r_password room) \<and> r_password room \<noteq> pw)
     \<and> int (length (active_in_room s (sanitizeRoomId rid))) < max_participants room
     \<and> ((\<exists>more. filter (\<lambda>p. name p = sanitizeString nm) (active_in_room s (sanitizeRoomId rid))
                  = q # more) \<and> s' = s
        \<or> filter (\<lambda>p. name p = sanitizeString nm) (active_in_room s (sanitizeRoomId rid)) = []
          \<and> q = new_participant s now pid (sanitizeRoomId rid) (sanitizeString nm)
          \<and> s' = s\<lparr>participants := participants s @ [q]\<rparr>
          \<and> pid \<notin> p_id ` set (participants s))"
proof -
  from ok have nl: "\<not> isl (fst (joinRoom_handler s now pid rid nm pw))" by simp
  obtain room0 rest where sel: "select_room s (sanitizeRoomId rid) = room0 # rest"
    using nl joinRoom_handler_rejected_error[of s rid pw now pid nm]
    by (cases "select_room s (sanitizeRoomId rid)") auto
  have "\<not> (\<not> is_active room0 \<or> (truthy (r_password room0) \<and> r_password room0 \<noteq> pw)
           \<or> int (length (active_in_room s (sanitizeRoomId rid))) \<ge> max_participants room0)"
  proof
    assume "\<not> is_active room0 \<or> (truthy (r_password room0) \<and> r_password room0 \<noteq> pw)
           \<or> int (length (active_in_room s (sanitizeRoomId rid))) \<ge> max_participants room0"
    with sel have "isl (fst (joinRoom_handler s now pid rid nm pw))"
      by (intro joinRoom_handler_rejected_error disjI2 exI[of _ room0] exI[of _ rest]) simp
    with nl show False by simp
  qed
  then have adm: "is_active room0" "\<not> (truthy (r_password room0) \<and> r_password room0 \<noteq> pw)"
    "int (length (active_in_room s (sanitizeRoomId rid))) < max_participants room0"
    by auto
  define np where "np = new_participant s now pid (sanitizeRoomId rid) (sanitizeString nm)"
  note e = joinRoom_handler_admitted[OF sel adm, of now pid nm, folded np_def]
  show ?thesis
  proof (cases "filter (\<lambda>p. name p = sanitizeString nm) (active_in_room s (sanitizeRoomId rid))")
    case (Cons a more)
    with e ok have "room = room0" "q = a" "s' = s" by simp_all
    with sel adm Cons show ?thesis by simp
  next
    case Nil
    obtain res s1 where ir: "insertAndReturn_participant s np = (res, s1)" by fastforce
    from e ok Nil ir have r: "res = Inr q" "room = room0" "s' = s1"
      by (cases res; simp)+
    from insertAndReturn_participant_Inr[OF ir[unfolded r(1)]]
    have "q = np" "s1 = s\<lparr>participants := participants s @ [np]\<rparr>"
      "p_id np \<notin> p_id ` set (participants s)" by blast+
    moreover have "p_id np = pid" by (simp add: np_def new_participant_def)
    ultimately show ?thesis using sel adm Nil r unfolding np_def by simp
  qed
qed

lemma joinRoom_Inr:
  assumes "joinRoom s now pid rid nm pw = (Inr (room, q), s')"
  shows "joinRoomSchema rid nm pw = Inr (rid, trim nm, pw)
       \<and> joinRoom_handler s now pid rid (trim nm) pw = (Inr (room, q), s')"
proof -
  from assms obtain r n p where v: "joinRoomSchema rid nm pw = Inr (r, n, p)"
    and h: "joinRoom_handler s now pid r n p = (Inr (room, q), s')"
    by (auto simp: joinRoom_def split: sum.splits)
  from v have "r = rid" "n = trim nm" "p = pw"
    by (auto simp: joinRoomSchema_def split: if_splits)
  with v h show ?thesis by simp
qed

lemma createRoom_sole_host:
  assumes inv: "store_inv s"
    and ok: "createRoom s now rnd cid t d p r m = (Inr (room, c), s')"
  shows "c = cid \<and> active_in_room s' (r_id room) = [creator_row now cid (r_id room)]
       \<and> active_hosts s' (r_id room) = [creator_row now cid (r_id room)]"
proof -
  from createRoom_Inr[OF ok] obtain t' d' where
    h: "createRoom_handler s now rnd cid t' d' p
               (Some (case r of None \<Rightarrow> False | Some b \<Rightarrow> b))
               (Some (case m of None \<Rightarrow> 10 | Some n \<Rightarrow> n)) = (Inr (room, c), s')"
    by blast
  note H = createRoom_handler_Inr[OF h]
  from H have fresh: "r_id room \<notin> r_id ` set (rooms s)" by blast
  from inv have "no_orphans s" by (simp add: store_inv_def)
  then have "active_in_room s (r_id room) = []"
    using fresh by (rule fresh_room_no_active)
  with H have "active_in_room s' (r_id room) = [creator_row now cid (r_id room)]"
    by (simp add: active_in_room_def creator_row_def)
  with H show ?thesis by (simp add: active_hosts_def creator_row_def)
qed

text \<open>
  Requests served one after the other. In every store that a sequence of requests builds
  from the empty database, and after any further request, no room has more than one
  participant with \<open>is_host\<close> set and
  \<open>left_at\<close> unset. A successful \<open>createRoom\<close> leaves the creator as the room's only active
  participant and host. A successful \<open>joinRoom\<close> either returns a row that was there, changing
  nothing, or appends a new row whose \<open>is_host\<close> is set exactly when the room had no active
  host.
\<close>

theorem at_most_one_host:
  "length (active_hosts (run reqs) i) \<le> 1
   \<and> length (active_hosts (handle (run reqs) req) i) \<le> 1
   \<and> (\<forall>room c s'. createRoom (run reqs) now rnd cid t d p r m = (Inr (room, c), s') \<longrightarrow>
         c = cid \<and> active_hosts s' (r_id room) = [creator_row now cid (r_id room)]
         \<and> p_id (creator_row now cid (r_id room)) = cid
         \<and> is_host (creator_row now cid (r_id room)))
   \<and> (\<forall>room q s'. joinRoom (run reqs) now pid rid nm pw = (Inr (room, q), s') \<longrightarrow>
         (q \<in> set (participants (run reqs)) \<and> s' = run reqs)
         \<or> (q \<notin> set (participants (run reqs))
            \<and> participants s' = participants (run reqs) @ [q]
            \<and> room_id q = r_id room
            \<and> (is_host q \<longleftrightarrow> active_hosts (run reqs) (r_id room) = [])))"
proof (intro conjI allI impI)
  show "length (active_hosts (run reqs) i) \<le> 1"
    using run_inv[of reqs] by (simp add: store_inv_def)
  show "length (active_hosts (handle (run reqs) req) i) \<le> 1"
    using handle_inv[OF run_inv[of reqs], of req] by (simp add: store_inv_def)
next
  fix room c s'
  assume ok: "createRoom (run reqs) now rnd cid t d p r m = (Inr (room, c), s')"
  note S = createRoom_sole_host[OF run_inv ok]
  from S show "c = cid" by simp
  from S show "active_hosts s' (r_id room) = [creator_row now cid (r_id room)]" by simp
  show "p_id (creator_row now cid (r_id room)) = cid" by (simp add: creator_row_def)
  show "is_host (creator_row now cid (r_id room))" by (simp add: creator_row_def)
next
  fix room q s'
  assume ok: "joinRoom (run reqs) now pid rid nm pw = (Inr (room, q), s')"
  define s where "s = run reqs"
  from joinRoom_Inr[OF ok] have v: "joinRoomSchema rid nm pw = Inr (rid, trim nm, pw)"
    and h: "joinRoom_handler s now pid rid (trim nm) pw = (Inr (room, q), s')"
    by (simp_all add: s_def)
  note J = joinRoom_handler_Inr[OF h]
  from J obtain rest where sel: "select_room s (sanitizeRoomId rid) = room # rest" by blast
  then have "room \<in> set (filter (\<lambda>r. r_id r = sanitizeRoomId rid) (rooms s))"
    by (simp add: select_room_def)
  then have rid: "r_id room = sanitizeRoomId rid" by simp
  from J have "(\<exists>more. filter (\<lambda>p. name p = sanitizeString (trim nm))
                    (active_in_room s (sanitizeRoomId rid)) = q # more) \<and> s' = s
        \<or> q = new_participant s now pid (sanitizeRoomId rid) (sanitizeString (trim nm))
          \<and> s' = s\<lparr>participants := participants s @ [q]\<rparr>
          \<and> pid \<notin> p_id ` set (participants s)" by blast
  then have "(q \<in> set (participants s) \<and> s' = s)
         \<or> (q \<notin> set (participants s)
            \<and> participants s' = participants s @ [q]
            \<and> room_id q = r_id room
            \<and> (is_host q \<longleftrightarrow> active_hosts s (r_id room) = []))"
  proof (elim disjE conjE exE)
    fix more
    assume f: "filter (\<lambda>p. name p = sanitizeString (trim nm))
                    (active_in_room s (sanitizeRoomId rid)) = q # more" and e: "s' = s"
    have "q \<in> set (filter (\<lambda>p. name p = sanitizeString (trim nm))
                    (active_in_room s (sanitizeRoomId rid)))" unfolding f by simp
    then have "q \<in> set (participants s)" by (simp add: active_in_room_def)
    with e show ?thesis by simp
  next
    assume q: "q = new_participant s now pid (sanitizeRoomId rid) (sanitizeString (trim nm))"
      and e: "s' = s\<lparr>participants := participants s @ [q]\<rparr>"
      and fresh: "pid \<notin> p_id ` set (participants s)"
    have pq: "p_id q = pid" "room_id q = sanitizeRoomId rid"
      "is_host q \<longleftrightarrow> active_hosts s (sanitizeRoomId rid) = []"
      by (simp_all add: q new_participant_def active_hosts_def)
    from fresh pq(1) have "q \<notin> set (participants s)" by force
    moreover have "participants s' = participants s @ [q]" by (simp add: e)
    ultimately show ?thesis using pq rid by simp
  qed
  then show "(q \<in> set (participants (run reqs)) \<and> s' = run reqs)
         \<or> (q \<notin> set (participants (run reqs))
            \<and> participants s' = participants (run reqs) @ [q]
            \<and> room_id q = r_id room
            \<and> (is_host q \<longleftrightarrow> active_hosts (run reqs) (r_id room) = []))"
    by (simp only: s_def)
qed

theorem at_most_one_host_witness:
  "\<not> isl (fst (createRoom (run [CreateRoom 0 (\<lambda>i. i) ''c1'' ''Standup'' None None None (Some 2)])
                5000 (\<lambda>i. i + 1) ''c2'' ''Retro'' None None None None))
   \<and> active_hosts
        (snd (createRoom (run [CreateRoom 0 (\<lambda>i. i) ''c1'' ''Standup'' None None None (Some 2)])
                5000 (\<lambda>i. i + 1) ''c2'' ''Retro'' None None None None))
        (r_id (fst (projr (fst
           (createRoom (run [CreateRoom 0 (\<lambda>i. i) ''c1'' ''Standup'' None None None (Some 2)])
                5000 (\<lambda>i. i + 1) ''c2'' ''Retro'' None None None None)))))
       = [creator_row 5000 ''c2'' ''bcdefghijklm'']
   \<and> \<not> isl (fst (joinRoom (run [CreateRoom 0 (\<lambda>i. i) ''c1'' ''Standup'' None None None (Some 2)])
                5000 ''p2'' ''abcdefghijkl'' ''Bob'' None))
   \<and> snd (projr (fst (joinRoom
            (run [CreateRoom 0 (\<lambda>i. i) ''c1'' ''Standup'' None None None (Some 2)])
                5000 ''p2'' ''abcdefghijkl'' ''Bob'' None)))
       \<notin> set (participants (run [CreateRoom 0 (\<lambda>i. i) ''c1'' ''Standup'' None None None (Some 2)]))
   \<and> (is_host (snd (projr (fst (joinRoom
            (run [CreateRoom 0 (\<lambda>i. i) ''c1'' ''Standup'' None None None (Some 2)])
                5000 ''p2'' ''abcdefghijkl'' ''Bob'' None))))
       \<longleftrightarrow> active_hosts (run [CreateRoom 0 (\<lambda>i. i) ''c1'' ''Standup'' None None None (Some 2)])
             ''abcdefghijkl'' = [])
   \<and> length (active_hosts
        (handle (run [CreateRoom 0 (\<lambda>i. i) ''c1'' ''Standup'' None None None (Some 2)])
           (JoinRoom 5000 ''p2'' ''abcdefghijkl'' ''Bob'' None)) ''abcdefghijkl'') \<le> 1"
  (is "\<not> isl (fst ?C) \<and> active_hosts (snd ?C) (r_id (fst (projr (fst ?C)))) = [?cr]
       \<and> \<not> isl (fst ?J) \<and> snd (projr (fst ?J)) \<notin> set (participants ?S)
       \<and> (is_host (snd (projr (fst ?J))) \<longleftrightarrow> active_hosts ?S ''abcdefghijkl'' = [])
       \<and> length (active_hosts (handle ?S ?req) ''abcdefghijkl'') \<le> 1")
proof -
  note T = at_most_one_host[of "[CreateRoom 0 (\<lambda>i. i) ''c1'' ''Standup'' None None None (Some 2)]"
      "''abcdefghijkl''" ?req 5000 "\<lambda>i. i + 1" "''c2''" "''Retro''" None None None None
      "''p2''" "''abcdefghijkl''" "''Bob''" None]
  have c: "\<not> isl (fst ?C)" by code_simp
  then obtain room c s' where ce: "?C = (Inr (room, c), s')"
    by (cases ?C; cases "fst ?C") auto
  have rid: "r_id (fst (projr (fst ?C))) = ''bcdefghijklm''" by code_simp
  from T ce have "active_hosts s' (r_id room) = [creator_row 5000 ''c2'' (r_id room)]"
    by blast
  with ce rid have 1: "active_hosts (snd ?C) (r_id (fst (projr (fst ?C)))) = [?cr]" by simp
  have j: "\<not> isl (fst ?J)" by code_simp
  then obtain room2 q s2 where je: "?J = (Inr (room2, q), s2)"
    by (cases ?J; cases "fst ?J") auto
  have new: "snd (projr (fst ?J)) \<notin> set (participants ?S)" by code_simp
  have rid2: "r_id (fst (projr (fst ?J))) = ''abcdefghijkl''" by code_simp
  from new je have "q \<notin> set (participants ?S)" by simp
  with T je have "is_host q \<longleftrightarrow> active_hosts ?S (r_id room2) = []" by blast
  with je rid2 have 2: "is_host (snd (projr (fst ?J))) \<longleftrightarrow> active_hosts ?S ''abcdefghijkl'' = []"
    by simp
  from T have 3: "length (active_hosts (handle ?S ?req) ''abcdefghijkl'') \<le> 1" by blast
  from c 1 j new 2 3 show ?thesis by blast
qed

section \<open>Joins in flight at the same time\<close>

lemma joinRoom_handler_phases:
  "joinRoom_handler s now pid rid nm pw
     = (case joinRoom_reads s now pid rid nm pw of
          Inl res \<Rightarrow> (res, s)
        | Inr pending \<Rightarrow> joinRoom_insert s pending)"
proof (cases "select_room s (sanitizeRoomId rid)")
  case Nil
  then show ?thesis by (simp add: joinRoom_handler_def joinRoom_reads_def Let_def)
next
  case (Cons room rest)
  show ?thesis
  proof (cases "filter (\<lambda>p. name p = sanitizeString nm) (active_in_room s (sanitizeRoomId rid))")
    case Nil
    with Cons show ?thesis
      by (simp add: joinRoom_handler_def joinRoom_reads_def joinRoom_insert_def Let_def
          new_participant_def)
  next
    case (Cons a list)
    with \<open>select_room s (sanitizeRoomId rid) = room # rest\<close> show ?thesis
      by (simp add: joinRoom_handler_def joinRoom_reads_def Let_def)
  qed
qed

text \<open>
  C1. The bound of one active host per room does not hold at every point of the program.
  The host of a room has left. Two joins, Bob's and Carol's, are in flight: both run their
  queries, \<open>hostCheckQuery\<close> included, before either runs its \<open>INSERT\<close>. Both find no active
  host, both insert a row with \<open>is_host\<close> set, and the room, still active, has two participants
  with \<open>is_host\<close> set and \<open>left_at\<close> unset.
\<close>

theorem two_hosts_when_joins_interleave:
  "joinRoomSchema ''abcdefghijkl'' ''Bob'' None = Inr (''abcdefghijkl'', ''Bob'', None)
   \<and> joinRoomSchema ''abcdefghijkl'' ''Carol'' None = Inr (''abcdefghijkl'', ''Carol'', None)
   \<and> is_active (hd (select_room
        (run [CreateRoom 0 (\<lambda>i. i) ''c1'' ''Standup'' None None None None,
              LeaveRoom 1000 (Some ''c1'')]) ''abcdefghijkl''))
   \<and> active_hosts
        (run [CreateRoom 0 (\<lambda>i. i) ''c1'' ''Standup'' None None None None,
              LeaveRoom 1000 (Some ''c1'')]) ''abcdefghijkl'' = []
   \<and> \<not> isl (joinRoom_reads
        (run [CreateRoom 0 (\<lambda>i. i) ''c1'' ''Standup'' None None None None,
              LeaveRoom 1000 (Some ''c1'')]) 2000 ''p2'' ''abcdefghijkl'' ''Bob'' None)
   \<and> \<not> isl (joinRoom_reads
        (run [CreateRoom 0 (\<lambda>i. i) ''c1'' ''Standup'' None None None None,
              LeaveRoom 1000 (Some ''c1'')]) 2000 ''p3'' ''abcdefghijkl'' ''Carol'' None)
   \<and> map p_id (active_hosts
        (snd (joinRoom_insert
          (snd (joinRoom_insert
            (run [CreateRoom 0 (\<lambda>i. i) ''c1'' ''Standup'' None None None None,
                  LeaveRoom 1000 (Some ''c1'')])
            (projr (joinRoom_reads
              (run [CreateRoom 0 (\<lambda>i. i) ''c1'' ''Standup'' None None None None,
                    LeaveRoom 1000 (Some ''c1'')]) 2000 ''p2'' ''abcdefghijkl'' ''Bob'' None))))
          (projr (joinRoom_reads
              (run [CreateRoom 0 (\<lambda>i. i) ''c1'' ''Standup'' None None None None,
                    LeaveRoom 1000 (Some ''c1'')]) 2000 ''p3'' ''abcdefghijkl'' ''Carol'' None))))
        ''abcdefghijkl'') = [''p2'', ''p3'']"
  by code_simp

lemma toLowerCase_lower: "isLowerAlnum c \<Longrightarrow> toLowerCase c = c"
  by (auto simp: isLowerAlnum_def toLowerCase_def Let_def)

lemma sanitizeRoomId_valid: "list_all isLowerAlnum r \<Longrightarrow> sanitizeRoomId r = r"
  unfolding sanitizeRoomId_def
  by (induction r) (simp_all add: toLowerCase_lower)

lemma joinRoomSchema_Inr:
  assumes "\<not> isl (joinRoomSchema roomId nm pw)"
  shows "joinRoomSchema roomId nm pw = Inr (roomId, trim nm, pw) \<and> sanitizeRoomId roomId = roomId
       \<and> roomId \<noteq> [] \<and> list_all isLowerAlnum roomId"
  using assms by (auto simp: joinRoomSchema_def sanitizeRoomId_valid split: if_splits)

lemma joinRoom_valid:
  assumes "\<not> isl (joinRoomSchema roomId nm pw)"
  shows "joinRoom s now pid roomId nm pw = joinRoom_handler s now pid roomId (trim nm) pw"
  using joinRoomSchema_Inr[OF assms] by (simp add: joinRoom_def)

lemma joinRoom_invalid:
  assumes "isl (joinRoomSchema roomId nm pw)"
  shows "joinRoom s now pid roomId nm pw = (Inl BadRequest, s)"
proof -
  from assms have "joinRoomSchema roomId nm pw = Inl BadRequest"
    by (auto simp: joinRoomSchema_def split: if_splits)
  then show ?thesis by (simp add: joinRoom_def)
qed



section \<open>checkTimeout\<close>








lemma closed_room_participants:
  "participants (mark_all_left (deactivate_room s roomId) now roomId)
     = map (\<lambda>p. if room_id p = roomId \<and> left_at p = None
                then p\<lparr>left_at := Some (datetime_now now)\<rparr> else p) (participants s)"
  by (simp add: mark_all_left_def deactivate_room_def)










section \<open>Host actions\<close>

lemma host_checks_host_target:
  assumes "active_by_id s participantId = target # rest" "is_host target"
  shows "isl (host_checks s participantId h)"
  using assms by (simp add: host_checks_def split: list.splits)

lemma host_checks_forbidden:
  assumes "active_by_id s h = hostRow # others" "is_host hostRow"
    "active_by_id s participantId = target # rest" "room_id target = room_id hostRow"
    "is_host target"
  shows "host_checks s participantId h = Inl Forbidden"
  using assms by (simp add: host_checks_def)

lemma kick_rejected:
  "isl (host_checks s participantId (the hostId)) \<Longrightarrow>
   isl (fst (kickParticipant s now participantId hostId))
   \<and> snd (kickParticipant s now participantId hostId) = s"
  by (cases "host_checks s participantId (the hostId)") (simp_all add: kickParticipant_def)

lemma mute_rejected:
  "isl (host_checks s participantId (the hostId)) \<Longrightarrow>
   isl (fst (muteParticipant s participantId hostId m))
   \<and> snd (muteParticipant s participantId hostId m) = s"
  by (cases "host_checks s participantId (the hostId)"; cases m)
     (simp_all add: muteParticipant_def)

lemma video_rejected:
  "isl (host_checks s participantId (the hostId)) \<Longrightarrow>
   isl (fst (videoControl s participantId hostId m))
   \<and> snd (videoControl s participantId hostId m) = s"
  by (cases "host_checks s participantId (the hostId)"; cases m)
     (simp_all add: videoControl_def)

lemma screenshare_rejected:
  "isl (host_checks s participantId (the hostId)) \<Longrightarrow>
   isl (fst (screenshareControl s participantId hostId m))
   \<and> snd (screenshareControl s participantId hostId m) = s"
  by (cases "host_checks s participantId (the hostId)"; cases m)
     (simp_all add: screenshareControl_def)

text \<open>
  C4. When the target resolves to an active participant with \<open>is_host\<close> set, each of the four
  host actions ends in an error and leaves the store exactly as it was, whoever asks and
  whatever the body. When moreover the body is well formed and the requester resolves to an
  active host of the target's room, so that the check of the target is reached, the error is
  \<open>Forbidden\<close>.
\<close>

theorem host_target_forbidden:
  "active_by_id s participantId = target # rest \<and> is_host target \<longrightarrow>
     (isl (fst (kickParticipant s now participantId hostId))
        \<and> snd (kickParticipant s now participantId hostId) = s
      \<and> isl (fst (muteParticipant s participantId hostId flag))
        \<and> snd (muteParticipant s participantId hostId flag) = s
      \<and> isl (fst (videoControl s participantId hostId flag))
        \<and> snd (videoControl s participantId hostId flag) = s
      \<and> isl (fst (screenshareControl s participantId hostId flag))
        \<and> snd (screenshareControl s participantId hostId flag) = s)
     \<and> (h \<noteq> [] \<and> active_by_id s h = hostRow # others \<and> is_host hostRow
          \<and> room_id target = room_id hostRow \<longrightarrow>
          kickParticipant s now participantId (Some h) = (Inl Forbidden, s)
        \<and> muteParticipant s participantId (Some h) (Some b) = (Inl Forbidden, s)
        \<and> videoControl s participantId (Some h) (Some b) = (Inl Forbidden, s)
        \<and> screenshareControl s participantId (Some h) (Some b) = (Inl Forbidden, s))"
proof (intro impI, elim conjE)
  assume t: "active_by_id s participantId = target # rest" "is_host target"
  have r: "isl (host_checks s participantId (the hostId))"
    by (rule host_checks_host_target[OF t])
  have 2: "kickParticipant s now participantId (Some h) = (Inl Forbidden, s)
        \<and> muteParticipant s participantId (Some h) (Some b) = (Inl Forbidden, s)
        \<and> videoControl s participantId (Some h) (Some b) = (Inl Forbidden, s)
        \<and> screenshareControl s participantId (Some h) (Some b) = (Inl Forbidden, s)"
    if a: "h \<noteq> [] \<and> active_by_id s h = hostRow # others \<and> is_host hostRow
          \<and> room_id target = room_id hostRow"
  proof -
    from a t have "host_checks s participantId h = Inl Forbidden"
      by (intro host_checks_forbidden[where target = target and hostRow = hostRow]) auto
    with a show ?thesis
      by (simp add: kickParticipant_def muteParticipant_def videoControl_def
          screenshareControl_def truthy_def)
  qed
  from kick_rejected[OF r] mute_rejected[OF r] video_rejected[OF r] screenshare_rejected[OF r] 2
  show "(isl (fst (kickParticipant s now participantId hostId))
        \<and> snd (kickParticipant s now participantId hostId) = s
      \<and> isl (fst (muteParticipant s participantId hostId flag))
        \<and> snd (muteParticipant s participantId hostId flag) = s
      \<and> isl (fst (videoControl s participantId hostId flag))
        \<and> snd (videoControl s participantId hostId flag) = s
      \<and> isl (fst (screenshareControl s participantId hostId flag))
        \<and> snd (screenshareControl s participantId hostId flag) = s)
     \<and> (h \<noteq> [] \<and> active_by_id s h = hostRow # others \<and> is_host hostRow
          \<and> room_id target = room_id hostRow \<longrightarrow>
          kickParticipant s now participantId (Some h) = (Inl Forbidden, s)
        \<and> muteParticipant s participantId (Some h) (Some b) = (Inl Forbidden, s)
        \<and> videoControl s participantId (Some h) (Some b) = (Inl Forbidden, s)
        \<and> screenshareControl s participantId (Some h) (Some b) = (Inl Forbidden, s))"
    by blast
qed

theorem host_target_forbidden_witness:
  "is_host (hd (active_by_id
      \<lparr>rooms = [], participants = [creator_row 0 ''h1'' ''r'', creator_row 0 ''h2'' ''r'']\<rparr>
      ''h2''))
   \<and> kickParticipant
        \<lparr>rooms = [], participants = [creator_row 0 ''h1'' ''r'', creator_row 0 ''h2'' ''r'']\<rparr>
        1000 ''h2'' (Some ''h1'')
      = (Inl Forbidden,
         \<lparr>rooms = [], participants = [creator_row 0 ''h1'' ''r'', creator_row 0 ''h2'' ''r'']\<rparr>)
   \<and> muteParticipant
        \<lparr>rooms = [], participants = [creator_row 0 ''h1'' ''r'', creator_row 0 ''h2'' ''r'']\<rparr>
        ''h2'' (Some ''h1'') (Some True)
      = (Inl Forbidden,
         \<lparr>rooms = [], participants = [creator_row 0 ''h1'' ''r'', creator_row 0 ''h2'' ''r'']\<rparr>)
   \<and> videoControl
        \<lparr>rooms = [], participants = [creator_row 0 ''h1'' ''r'', creator_row 0 ''h2'' ''r'']\<rparr>
        ''h2'' (Some ''h1'') (Some True)
      = (Inl Forbidden,
         \<lparr>rooms = [], participants = [creator_row 0 ''h1'' ''r'', creator_row 0 ''h2'' ''r'']\<rparr>)
   \<and> screenshareControl
        \<lparr>rooms = [], participants = [creator_row 0 ''h1'' ''r'', creator_row 0 ''h2'' ''r'']\<rparr>
        ''h2'' (Some ''h1'') (Some True)
      = (Inl Forbidden,
         \<lparr>rooms = [], participants = [creator_row 0 ''h1'' ''r'', creator_row 0 ''h2'' ''r'']\<rparr>)
   \<and> snd (muteParticipant
        \<lparr>rooms = [], participants = [creator_row 0 ''h1'' ''r'', creator_row 0 ''h2'' ''r'']\<rparr>
        ''h2'' None None)
      = \<lparr>rooms = [], participants = [creator_row 0 ''h1'' ''r'', creator_row 0 ''h2'' ''r'']\<rparr>"
  (is "?A \<and> ?B \<and> ?C \<and> ?D \<and> ?E \<and> ?F")
proof -
  let ?S = "\<lparr>rooms = [], participants = [creator_row 0 ''h1'' ''r'', creator_row 0 ''h2'' ''r'']\<rparr>"
  have t: "active_by_id ?S ''h2'' = hd (active_by_id ?S ''h2'') # tl (active_by_id ?S ''h2'')"
    by code_simp
  have th: ?A by code_simp
  have h: "active_by_id ?S ''h1'' = hd (active_by_id ?S ''h1'') # tl (active_by_id ?S ''h1'')"
    by code_simp
  have hh: "is_host (hd (active_by_id ?S ''h1''))" by code_simp
  have rr: "room_id (hd (active_by_id ?S ''h2'')) = room_id (hd (active_by_id ?S ''h1''))"
    by code_simp
  have ne: "''h1'' \<noteq> []" by simp
  from host_target_forbidden[of ?S "''h2''" "hd (active_by_id ?S ''h2'')"
      "tl (active_by_id ?S ''h2'')" 1000 "Some ''h1''" "Some True" "''h1''"
      "hd (active_by_id ?S ''h1'')" "tl (active_by_id ?S ''h1'')" True] t th h hh rr ne
  have b: ?B and c: ?C and d: ?D and e: ?E by blast+
  from host_target_forbidden[of ?S "''h2''" "hd (active_by_id ?S ''h2'')"
      "tl (active_by_id ?S ''h2'')" 1000 None None] t th
  have f: ?F by blast
  from th b c d e f show ?thesis by blast
qed

section \<open>Sanitised names\<close>

lemma trim_id:
  assumes "xs \<noteq> []" "\<not> isWhiteSpace (hd xs)" "\<not> isWhiteSpace (last xs)"
  shows "trim xs = xs"
proof -
  from assms have 1: "dropWhile isWhiteSpace xs = xs" by (cases xs) auto
  from assms have "rev xs \<noteq> []" "\<not> isWhiteSpace (hd (rev xs))" by (simp_all add: hd_rev)
  then have "dropWhile isWhiteSpace (rev xs) = rev xs" by (cases "rev xs") auto
  with 1 show ?thesis by (simp add: trim_def)
qed

lemma last_dropWhile: "dropWhile P xs \<noteq> [] \<Longrightarrow> last (dropWhile P xs) = last xs"
  by (induction xs) (auto split: if_splits)

lemma trim_ends:
  assumes "trim x \<noteq> []"
  shows "\<not> isWhiteSpace (hd (trim x)) \<and> \<not> isWhiteSpace (last (trim x))"
proof -
  define d where "d = dropWhile isWhiteSpace x"
  define e where "e = dropWhile isWhiteSpace (rev d)"
  have t: "trim x = rev e" by (simp add: trim_def d_def e_def)
  with assms have e: "e \<noteq> []" by simp
  then have "\<not> isWhiteSpace (hd e)" unfolding e_def by (rule hd_dropWhile)
  then have l: "\<not> isWhiteSpace (last (trim x))" using e by (simp add: t last_rev)
  from e have d: "d \<noteq> []" by (auto simp: e_def)
  then have "\<not> isWhiteSpace (hd d)" unfolding d_def by (rule hd_dropWhile)
  moreover have "last e = last (rev d)" using e unfolding e_def by (rule last_dropWhile)
  ultimately have "\<not> isWhiteSpace (last e)" using d by (simp add: last_rev)
  then have "\<not> isWhiteSpace (hd (trim x))" using e by (simp add: t hd_rev)
  with l show ?thesis by simp
qed

lemma normalizeWhitespace_hd:
  "xs \<noteq> [] \<Longrightarrow> \<not> isWhiteSpace (hd xs) \<Longrightarrow>
   normalizeWhitespace xs \<noteq> [] \<and> hd (normalizeWhitespace xs) = hd xs"
  by (cases xs) auto

lemma normalizeWhitespace_Nil: "normalizeWhitespace xs = [] \<longleftrightarrow> xs = []"
  by (cases xs) auto

lemma normalizeWhitespace_last:
  "xs \<noteq> [] \<Longrightarrow> \<not> isWhiteSpace (last xs) \<Longrightarrow> last (normalizeWhitespace xs) = last xs"
proof (induction xs rule: normalizeWhitespace.induct)
  case 1
  then show ?case by simp
next
  case (2 c cs)
  show ?case
  proof (cases "isWhiteSpace c")
    case True
    with "2.prems" have cs: "cs \<noteq> []" by auto
    with "2.prems" have lc: "\<not> isWhiteSpace (last cs)" by simp
    have dn: "dropWhile isWhiteSpace cs \<noteq> []"
    proof
      assume "dropWhile isWhiteSpace cs = []"
      then have "\<forall>x \<in> set cs. isWhiteSpace x" by (simp add: dropWhile_eq_Nil_conv)
      with cs lc show False by (metis last_in_set)
    qed
    then have ld: "last (dropWhile isWhiteSpace cs) = last cs" by (rule last_dropWhile)
    with "2.IH"(1)[OF True dn] lc
    have "last (normalizeWhitespace (dropWhile isWhiteSpace cs)) = last cs" by simp
    moreover have "normalizeWhitespace (dropWhile isWhiteSpace cs) \<noteq> []"
      using dn by (simp add: normalizeWhitespace_Nil)
    ultimately show ?thesis using True cs by simp
  next
    case False
    show ?thesis
    proof (cases "cs = []")
      case True
      with False show ?thesis by simp
    next
      case nonempty: False
      with "2.prems" have "\<not> isWhiteSpace (last cs)" by simp
      from "2.IH"(2)[OF False nonempty this] False nonempty show ?thesis
        by (simp add: normalizeWhitespace_Nil)
    qed
  qed
qed

lemma normalizeWhitespace_set:
  "set (normalizeWhitespace xs) \<subseteq> insert (CHR '' '') (set xs)"
proof (induction xs rule: normalizeWhitespace.induct)
  case 1
  then show ?case by simp
next
  case (2 c cs)
  have "set (dropWhile isWhiteSpace cs) \<subseteq> set cs" by (auto dest: set_dropWhileD)
  with 2 show ?case by (cases "isWhiteSpace c") auto
qed

lemma normalizeWhitespace_idem:
  "normalizeWhitespace (normalizeWhitespace xs) = normalizeWhitespace xs"
proof (induction xs rule: normalizeWhitespace.induct)
  case 1
  then show ?case by simp
next
  case (2 c cs)
  show ?case
  proof (cases "isWhiteSpace c")
    case True
    define ds where "ds = dropWhile isWhiteSpace cs"
    have sp: "isWhiteSpace (CHR '' '')" by (simp add: isWhiteSpace_def)
    have "dropWhile isWhiteSpace (normalizeWhitespace ds) = normalizeWhitespace ds"
    proof (cases "ds = []")
      case True
      then show ?thesis by simp
    next
      case False
      then have "\<not> isWhiteSpace (hd ds)" unfolding ds_def by (rule hd_dropWhile)
      from normalizeWhitespace_hd[OF False this] this show ?thesis
        by (cases "normalizeWhitespace ds") auto
    qed
    with "2.IH"(1)[OF True] True sp show ?thesis by (simp add: ds_def)
  next
    case False
    with "2.IH"(2)[OF False] show ?thesis by simp
  qed
qed

lemma nameChar_not_angle: "isNameChar c \<Longrightarrow> c \<noteq> CHR ''<'' \<and> c \<noteq> CHR ''>''"
  by (auto simp: isNameChar_def isWhiteSpace_def Let_def)

lemma filter_nameChars:
  "list_all isNameChar xs \<Longrightarrow> filter (\<lambda>c. c \<noteq> CHR ''<'' \<and> c \<noteq> CHR ''>'') xs = xs"
  by (induction xs) (auto dest: nameChar_not_angle)

lemma sanitized_name_clean:
  assumes ne: "trim x \<noteq> []" and nc: "list_all isNameChar (trim x)"
  shows "clean_name (sanitizeString (trim x))"
proof -
  define y where "y = trim x"
  from trim_ends[OF ne] have ends: "\<not> isWhiteSpace (hd y)" "\<not> isWhiteSpace (last y)"
    by (simp_all add: y_def)
  from ne have y: "y \<noteq> []" by (simp add: y_def)
  have ty: "trim y = y" by (rule trim_id[OF y ends])
  have fy: "filter (\<lambda>c. c \<noteq> CHR ''<'' \<and> c \<noteq> CHR ''>'') y = y"
    using nc by (simp add: y_def filter_nameChars)
  define z where "z = normalizeWhitespace y"
  have sz: "sanitizeString y = z" by (simp add: sanitizeString_def ty fy z_def)
  from normalizeWhitespace_hd[OF y ends(1)] have z: "z \<noteq> []" "hd z = hd y"
    by (simp_all add: z_def)
  have lz: "last z = last y" unfolding z_def by (rule normalizeWhitespace_last[OF y ends(2)])
  have tz: "trim z = z" using z lz ends by (intro trim_id) simp_all
  have sp: "isNameChar (CHR '' '')" by (simp add: isNameChar_def isWhiteSpace_def)
  have "set z \<subseteq> insert (CHR '' '') (set y)" unfolding z_def by (rule normalizeWhitespace_set)
  moreover have "\<forall>c \<in> set y. isNameChar c" using nc by (simp add: y_def list_all_iff)
  ultimately have "list_all isNameChar z" using sp by (auto simp: list_all_iff)
  then have fz: "filter (\<lambda>c. c \<noteq> CHR ''<'' \<and> c \<noteq> CHR ''>'') z = z" by (rule filter_nameChars)
  have "sanitizeString (trim z) = z"
    by (simp add: sanitizeString_def tz fz) (simp add: z_def normalizeWhitespace_idem)
  then show ?thesis by (simp add: clean_name_def sz y_def[symmetric])
qed

lemma Host_clean: "clean_name ''Host''"
  unfolding clean_name_def by code_simp

section \<open>The invariant of names\<close>

lemma active_named_filter:
  "active_named s i n
     = filter (\<lambda>p. room_id p = i \<and> left_at p = None \<and> name p = n) (participants s)"
  by (auto simp: active_named_def active_in_room_def intro: filter_cong)

lemma keeps_named_le:
  "list_all2 keeps xs ys \<Longrightarrow>
   length (filter (\<lambda>p. room_id p = i \<and> left_at p = None \<and> name p = n) ys)
     \<le> length (filter (\<lambda>p. room_id p = i \<and> left_at p = None \<and> name p = n) xs)"
  by (induction rule: list_all2_induct) (auto simp: keeps_def)

lemma keeps_names: "list_all2 keeps xs ys \<Longrightarrow> map name ys = map name xs"
  by (induction rule: list_all2_induct) (auto simp: keeps_def)

lemma names_inv_alt:
  "names_inv s \<longleftrightarrow> list_all clean_name (map name (participants s))
                   \<and> (\<forall>i n. length (active_named s i n) \<le> 1)"
  by (simp add: names_inv_def list_all_iff)

lemma names_inv_shrink:
  assumes inv: "names_inv s" and k: "list_all2 keeps (participants s) (participants s')"
  shows "names_inv s'"
proof -
  have "list_all clean_name (map name (participants s'))"
    using inv keeps_names[OF k] by (simp add: names_inv_alt)
  moreover have "length (active_named s' i n) \<le> 1" for i n
  proof -
    have "length (active_named s' i n) \<le> length (active_named s i n)"
      unfolding active_named_filter by (rule keeps_named_le[OF k])
    also have "\<dots> \<le> 1" using inv by (simp add: names_inv_def)
    finally show ?thesis .
  qed
  ultimately show ?thesis by (simp add: names_inv_alt)
qed

lemma names_inv_rooms:
  assumes "names_inv s" "participants s' = participants s"
  shows "names_inv s'"
  using assms by (simp add: names_inv_alt active_named_filter)

lemma add_participant_names:
  assumes inv: "names_inv s"
    and c: "clean_name (name p)"
    and h: "left_at p = None \<Longrightarrow> active_named s (room_id p) (name p) = []"
  shows "names_inv (s\<lparr>participants := participants s @ [p]\<rparr>)"
proof -
  let ?s' = "s\<lparr>participants := participants s @ [p]\<rparr>"
  have "list_all clean_name (map name (participants ?s'))"
    using inv c by (simp add: names_inv_alt)
  moreover have "length (active_named ?s' i n) \<le> 1" for i n
  proof -
    have le: "length (active_named s i n) \<le> 1" using inv by (simp add: names_inv_def)
    have eq: "active_named ?s' i n = active_named s i n
            @ (if room_id p = i \<and> left_at p = None \<and> name p = n then [p] else [])"
      by (simp add: active_named_filter)
    show ?thesis
    proof (cases "room_id p = i \<and> left_at p = None \<and> name p = n")
      case True
      with h have "active_named s i n = []" by auto
      with eq True show ?thesis by simp
    next
      case False
      with eq le show ?thesis by simp
    qed
  qed
  ultimately show ?thesis by (simp add: names_inv_alt)
qed

lemma close_room_names:
  "names_inv s \<Longrightarrow> names_inv (mark_all_left (deactivate_room s i) now i)"
  by (rule names_inv_shrink[where s = s])
     (simp_all add: mark_all_left_keeps[of "deactivate_room s i", unfolded deactivate_room_participants])

lemma leaveRoom_names: "names_inv s \<Longrightarrow> names_inv (snd (leaveRoom s now pid))"
  by (auto simp: leaveRoom_def set_left_keeps split: option.splits
      intro: names_inv_shrink[where s = s])

lemma checkTimeout_names: "names_inv s \<Longrightarrow> names_inv (snd (checkTimeout s now rid))"
  by (auto simp: checkTimeout_def Let_def close_room_names split: list.splits)

lemma endMeeting_names: "names_inv s \<Longrightarrow> names_inv (snd (endMeeting s now rid pid))"
  by (auto simp: endMeeting_def close_room_names split: list.splits)

lemma updateParticipant_names:
  "names_inv s \<Longrightarrow> names_inv (snd (updateParticipant s pid a v sc))"
proof -
  assume inv: "names_inv s"
  define upd where "upd = (\<lambda>p::participant_row.
      let p1 = (case a of None \<Rightarrow> p | Some b \<Rightarrow> p\<lparr>is_audio_enabled := b\<rparr>);
          p2 = (case v of None \<Rightarrow> p1 | Some b \<Rightarrow> p1\<lparr>is_video_enabled := b\<rparr>)
      in (case sc of None \<Rightarrow> p2 | Some b \<Rightarrow> p2\<lparr>is_screen_sharing := b\<rparr>))"
  define s' where
    "s' = s\<lparr>participants := map (\<lambda>p. if p_id p = pid then upd p else p) (participants s)\<rparr>"
  have k: "keeps p (upd p)" for p
    by (simp add: keeps_def upd_def Let_def split: option.splits)
  have k': "keeps p (if p_id p = pid then upd p else p)" for p
    using k[of p] by (simp add: keeps_def)
  have 1: "list_all2 keeps (participants s) (participants s')"
    unfolding s'_def using k' by (simp add: keeps_map)
  have "names_inv s'"
    by (rule names_inv_shrink[OF inv 1])
  moreover have "snd (updateParticipant s pid a v sc) = s \<or> snd (updateParticipant s pid a v sc) = s'"
    unfolding updateParticipant_def s'_def upd_def Let_def by simp
  ultimately show ?thesis using inv by auto
qed

lemma kick_names: "names_inv s \<Longrightarrow> names_inv (snd (kickParticipant s now pid hid))"
  by (auto simp: kickParticipant_def set_left_keeps split: sum.splits
      intro: names_inv_shrink[where s = s])

lemma mute_names: "names_inv s \<Longrightarrow> names_inv (snd (muteParticipant s pid hid m))"
  by (auto simp: muteParticipant_def keeps_def split: sum.splits option.splits
      intro!: names_inv_shrink[where s = s] update_active_keeps)

lemma video_names: "names_inv s \<Longrightarrow> names_inv (snd (videoControl s pid hid m))"
  by (auto simp: videoControl_def keeps_def split: sum.splits option.splits
      intro!: names_inv_shrink[where s = s] update_active_keeps)

lemma screenshare_names: "names_inv s \<Longrightarrow> names_inv (snd (screenshareControl s pid hid m))"
  by (auto simp: screenshareControl_def keeps_def split: sum.splits option.splits
      intro!: names_inv_shrink[where s = s] update_active_keeps)

lemma createRoom_names:
  assumes inv: "store_inv s" and ninv: "names_inv s"
  shows "names_inv (snd (createRoom s now rnd cid t d p r m))"
proof (cases "createRoomSchema t d p r m")
  case (Inl e)
  then show ?thesis using ninv by (simp add: createRoom_def)
next
  case (Inr b)
  obtain t' d' p' r' m' where b: "b = (t', d', p', r', m')" by (cases b) auto
  have eq: "snd (createRoom s now rnd cid t d p r m)
        = snd (createRoom_handler s now rnd cid t' d' p' (Some r') (Some m'))"
    by (simp add: createRoom_def Inr b)
  from createRoom_handler_cases[of s now rnd cid t' d' p' "Some r'" "Some m'"]
  show ?thesis unfolding eq
  proof (elim disjE exE conjE)
    assume "snd (createRoom_handler s now rnd cid t' d' p' (Some r') (Some m')) = s"
    with ninv show "names_inv (snd (createRoom_handler s now rnd cid t' d' p' (Some r') (Some m')))"
      by simp
  next
    fix v
    assume "snd (createRoom_handler s now rnd cid t' d' p' (Some r') (Some m'))
              = s\<lparr>rooms := rooms s @ [v]\<rparr>"
    then show "names_inv (snd (createRoom_handler s now rnd cid t' d' p' (Some r') (Some m')))"
      by (intro names_inv_rooms[OF ninv]) simp
  next
    fix v
    assume fresh: "r_id v \<notin> r_id ` set (rooms s)"
      and e: "snd (createRoom_handler s now rnd cid t' d' p' (Some r') (Some m'))
              = (s\<lparr>rooms := rooms s @ [v]\<rparr>)
                   \<lparr>participants := participants s @ [creator_row now cid (r_id v)]\<rparr>"
    let ?s1 = "s\<lparr>rooms := rooms s @ [v]\<rparr>"
    have i1: "names_inv ?s1" by (intro names_inv_rooms[OF ninv]) simp
    have "active_in_room s (r_id v) = []"
      using inv fresh by (auto simp: store_inv_def intro: fresh_room_no_active)
    then have "active_named ?s1 (r_id v) n = []" for n
      by (simp add: active_named_def active_in_room_def)
    then have "names_inv (?s1\<lparr>participants := participants ?s1 @ [creator_row now cid (r_id v)]\<rparr>)"
      using Host_clean by (intro add_participant_names[OF i1]) (simp_all add: creator_row_def)
    then show "names_inv (snd (createRoom_handler s now rnd cid t' d' p' (Some r') (Some m')))"
      by (simp add: e)
  qed
qed

lemma joinRoom_handler_changed:
  assumes "snd (joinRoom_handler s now pid rid nm pw) \<noteq> s"
  shows "active_named s (sanitizeRoomId rid) (sanitizeString nm) = []"
proof (rule ccontr)
  assume "active_named s (sanitizeRoomId rid) (sanitizeString nm) \<noteq> []"
  then obtain e es where f: "filter (\<lambda>p. name p = sanitizeString nm)
      (active_in_room s (sanitizeRoomId rid)) = e # es"
    by (cases "active_named s (sanitizeRoomId rid) (sanitizeString nm)")
       (auto simp: active_named_def)
  have "snd (joinRoom_handler s now pid rid nm pw) = s"
  proof (cases "select_room s (sanitizeRoomId rid)")
    case Nil
    then show ?thesis by (intro joinRoom_handler_rejected) simp
  next
    case (Cons room rest)
    show ?thesis
    proof (cases "is_active room \<and> \<not> (truthy (r_password room) \<and> r_password room \<noteq> pw)
      \<and> int (length (active_in_room s (sanitizeRoomId rid))) < max_participants room")
      case False
      with Cons show ?thesis by (intro joinRoom_handler_rejected) auto
    next
      case True
      then have "joinRoom_handler s now pid rid nm pw = (Inr (room, e), s)"
        using joinRoom_handler_admitted[OF Cons, of pw now pid nm] f by simp
      then show ?thesis by simp
    qed
  qed
  with assms show False by simp
qed

lemma joinRoom_names:
  assumes ninv: "names_inv s"
  shows "names_inv (snd (joinRoom s now pid rid nm pw))"
proof (cases "isl (joinRoomSchema rid nm pw)")
  case True
  then show ?thesis using ninv by (simp add: joinRoom_invalid)
next
  case False
  note V = joinRoomSchema_Inr[OF False]
  have ok: "trim nm \<noteq> []" "list_all isNameChar (trim nm)"
    using False by (auto simp: joinRoomSchema_def split: if_splits)
  define np where "np = new_participant s now pid (sanitizeRoomId rid) (sanitizeString (trim nm))"
  from joinRoom_handler_state[of s now pid rid "trim nm" pw]
  show ?thesis unfolding joinRoom_valid[OF False]
  proof
    assume "snd (joinRoom_handler s now pid rid (trim nm) pw) = s"
    with ninv show "names_inv (snd (joinRoom_handler s now pid rid (trim nm) pw))" by simp
  next
    assume a: "select_room s (sanitizeRoomId rid) \<noteq> []
      \<and> snd (joinRoom_handler s now pid rid (trim nm) pw)
          = s\<lparr>participants := participants s
                 @ [new_participant s now pid (sanitizeRoomId rid) (sanitizeString (trim nm))]\<rparr>"
    have np: "name np = sanitizeString (trim nm)" "room_id np = sanitizeRoomId rid"
      by (simp_all add: np_def new_participant_def)
    have 1: "clean_name (name np)" unfolding np(1) by (rule sanitized_name_clean[OF ok])
    have 2: "active_named s (room_id np) (name np) = []"
    proof (cases "snd (joinRoom_handler s now pid rid (trim nm) pw) = s")
      case True
      from a have "participants (snd (joinRoom_handler s now pid rid (trim nm) pw))
          = participants s @ [np]" by (simp add: np_def)
      with True have "participants s = participants s @ [np]" by simp
      then show ?thesis by simp
    next
      case False
      from joinRoom_handler_changed[OF False] show ?thesis by (simp add: np)
    qed
    have "names_inv (s\<lparr>participants := participants s @ [np]\<rparr>)"
      using 1 2 by (intro add_participant_names[OF ninv]) auto
    with a show "names_inv (snd (joinRoom_handler s now pid rid (trim nm) pw))"
      by (simp add: np_def)
  qed
qed

lemma handle_names_inv:
  "store_inv s \<Longrightarrow> names_inv s \<Longrightarrow> names_inv (handle s r)"
  by (cases r)
     (simp_all add: createRoom_names joinRoom_names leaveRoom_names checkTimeout_names
        endMeeting_names updateParticipant_names kick_names mute_names video_names
        screenshare_names)

lemma foldl_handle_names_inv:
  "store_inv s \<Longrightarrow> names_inv s \<Longrightarrow> names_inv (foldl handle s reqs)"
  by (induction reqs arbitrary: s) (simp_all add: handle_inv handle_names_inv)

lemma empty_names_inv: "names_inv empty_store"
  by (simp add: names_inv_def empty_store_def active_named_def active_in_room_def)

lemma run_names_inv: "names_inv (run reqs)"
  unfolding run_def by (rule foldl_handle_names_inv[OF empty_store_inv empty_names_inv])

section \<open>Rejoining under an existing name\<close>

lemma chars_alnum: "list_all isLowerAlnum chars"
  by code_simp

lemma length_chars: "length chars = 36"
  by (simp add: chars_def)

lemma concat_singletons: "concat (map (\<lambda>i. [f i]) xs) = map f xs"
  by (induction xs) simp_all

lemma generateRoomId_valid:
  assumes "\<forall>i<12. rnd i < 36"
  shows "length (generateRoomId rnd) = 12 \<and> list_all isLowerAlnum (generateRoomId rnd)"
proof -
  have "map (\<lambda>i. charAt chars (rnd i)) [0..<12] = map (\<lambda>i. [chars ! rnd i]) [0..<12]"
    using assms by (intro map_cong) (simp_all add: charAt_def length_chars)
  then have g: "generateRoomId rnd = map (\<lambda>i. chars ! rnd i) [0..<12]"
    by (simp only: generateRoomId_def concat_singletons)
  have "isLowerAlnum (chars ! rnd i)" if "i < 12" for i
    using chars_alnum assms that by (simp add: list_all_length length_chars)
  then have "list_all isLowerAlnum (map (\<lambda>i. chars ! rnd i) [0..<12])"
    by (simp add: list_all_iff)
  with g show ?thesis by simp
qed

lemma createRoomSchema_password:
  assumes "createRoomSchema t d p r m = Inr b"
  shows "case p of None \<Rightarrow> True | Some x \<Rightarrow> length x \<le> 50"
  using assms by (auto simp: createRoomSchema_def split: if_splits option.splits)

lemma Host_schema:
  assumes "rid \<noteq> []" "length rid \<le> 20" "list_all isLowerAlnum rid"
    "case p of None \<Rightarrow> True | Some x \<Rightarrow> length x \<le> 50"
  shows "\<not> isl (joinRoomSchema rid ''Host'' p)"
proof -
  have "trim ''Host'' = ''Host''" by code_simp
  moreover have "list_all isNameChar ''Host''" by code_simp
  ultimately show ?thesis using assms
    by (auto simp: joinRoomSchema_def split: option.splits)
qed

lemma rejoin_existing:
  assumes v: "\<not> isl (joinRoomSchema roomId nm pw)"
    and sel: "select_room (run reqs) roomId = room # rest"
    and adm: "is_active room" "\<not> (truthy (r_password room) \<and> r_password room \<noteq> pw)"
      "int (length (active_in_room (run reqs) roomId)) < max_participants room"
    and q: "q \<in> set (active_in_room (run reqs) roomId)" "name q = nm"
  shows "joinRoom (run reqs) now pid roomId nm pw = (Inr (room, q), run reqs)"
proof -
  define s where "s = run reqs"
  note V = joinRoomSchema_Inr[OF v]
  then have sr: "sanitizeRoomId roomId = roomId" by simp
  have ninv: "names_inv s" unfolding s_def by (rule run_names_inv)
  from q have "q \<in> set (participants s)" by (simp add: active_in_room_def s_def)
  with ninv q(2) have "clean_name nm" by (auto simp: names_inv_def)
  then have sn: "sanitizeString (trim nm) = nm" by (simp add: clean_name_def)
  from q have "q \<in> set (active_named s roomId nm)" by (simp add: active_named_def s_def)
  moreover have "length (active_named s roomId nm) \<le> 1" using ninv by (simp add: names_inv_def)
  ultimately have "active_named s roomId nm = [q]"
    by (cases "active_named s roomId nm") auto
  then have f: "filter (\<lambda>p. name p = sanitizeString (trim nm))
                  (active_in_room s (sanitizeRoomId roomId)) = [q]"
    by (simp add: active_named_def sn sr)
  have "joinRoom_handler s now pid roomId (trim nm) pw = (Inr (room, q), s)"
    using joinRoom_handler_admitted[of s roomId room rest pw now pid "trim nm"]
      sel adm f by (simp add: sr s_def)
  then show ?thesis unfolding joinRoom_valid[OF v] by (simp add: s_def)
qed

lemma run_snoc: "run (reqs @ [r]) = handle (run reqs) r"
  by (simp add: run_def)

lemma rejoin_creator:
  assumes ok: "createRoom (run reqs) now0 rnd cid t d p r m = (Inr (room0, c), s1)"
    and rnd: "\<forall>i<12. rnd i < 36"
  shows "joinRoom s1 now pid (r_id room0) ''Host'' p
           = (Inr (room0, creator_row now0 c (r_id room0)), s1)"
proof -
  define s where "s = run reqs"
  have s1: "s1 = run (reqs @ [CreateRoom now0 rnd cid t d p r m])"
    using ok by (simp add: run_snoc)
  from createRoom_Inr[OF ok] obtain t' d' where
    sch: "createRoomSchema t d p r m
            = Inr (t', d', p, (case r of None \<Rightarrow> False | Some b \<Rightarrow> b),
                   (case m of None \<Rightarrow> 10 | Some n \<Rightarrow> n))"
    and h: "createRoom_handler s now0 rnd cid t' d' p
               (Some (case r of None \<Rightarrow> False | Some b \<Rightarrow> b))
               (Some (case m of None \<Rightarrow> 10 | Some n \<Rightarrow> n)) = (Inr (room0, c), s1)"
    unfolding s_def by blast
  note H = createRoom_handler_Inr[OF h]
  note M = createRoomSchema_max[OF sch]
  from H have rid: "r_id room0 = generateRoomId rnd" by blast
  from generateRoomId_valid[OF rnd] rid
  have idok: "r_id room0 \<noteq> []" "length (r_id room0) \<le> 20" "list_all isLowerAlnum (r_id room0)"
    by auto
  have v: "\<not> isl (joinRoomSchema (r_id room0) ''Host'' p)"
    by (rule Host_schema[OF idok createRoomSchema_password[OF sch]])
  from H have fresh: "r_id room0 \<notin> r_id ` set (rooms s)" by blast
  from H have rooms1: "rooms s1 = rooms s @ [room0]" by blast
  have sel: "select_room s1 (r_id room0) = room0 # []"
    by (simp add: select_room_def rooms1 filter_fresh_room[OF fresh])
  from H have act: "is_active room0" by blast
  from H have "r_password room0 = (if truthy p then p else None)" by blast
  then have pwok: "\<not> (truthy (r_password room0) \<and> r_password room0 \<noteq> p)"
    by (simp add: truthy_def)
  have S: "c = cid" "active_in_room s1 (r_id room0) = [creator_row now0 cid (r_id room0)]"
    using createRoom_sole_host[OF run_inv ok] by simp_all
  from H M have "2 \<le> max_participants room0" by auto
  with S have cnt: "int (length (active_in_room s1 (r_id room0))) < max_participants room0"
    by simp
  have q: "creator_row now0 c (r_id room0) \<in> set (active_in_room s1 (r_id room0))"
    "name (creator_row now0 c (r_id room0)) = ''Host''"
    using S by (simp_all add: creator_row_def)
  show ?thesis
    using rejoin_existing[OF v sel[unfolded s1] act pwok cnt[unfolded s1] q[unfolded s1],
        of now pid]
    by (simp add: s1)
qed

text \<open>
  C6 (as amended). In a store built by requests from the empty database: when a valid join
  request passes admission (the room exists, is active, the password matches and the room is
  not full) and names a participant of the room that has not left, \<open>joinRoom\<close> returns that
  very row and leaves the store as it is. In particular, after a successful \<open>createRoom\<close>,
  joining the new room as \<open>Host\<close> with the password given at creation returns the creator's
  row, with the creator's id, and does so again on a second join.
\<close>

theorem joinRoom_reconciliation:
  "(\<not> isl (joinRoomSchema roomId nm pw)
      \<and> select_room (run reqs) roomId = room # rest
      \<and> is_active room \<and> \<not> (truthy (r_password room) \<and> r_password room \<noteq> pw)
      \<and> int (length (active_in_room (run reqs) roomId)) < max_participants room
      \<and> q \<in> set (active_in_room (run reqs) roomId) \<and> name q = nm
    \<longrightarrow> joinRoom (run reqs) now pid roomId nm pw = (Inr (room, q), run reqs))
   \<and> (createRoom (run reqs) now0 rnd cid t d p r m = (Inr (room0, c), s1)
        \<and> (\<forall>i<12. rnd i < 36)
    \<longrightarrow> p_id (creator_row now0 c (r_id room0)) = c
        \<and> joinRoom s1 now1 pid1 (r_id room0) ''Host'' p
            = (Inr (room0, creator_row now0 c (r_id room0)), s1)
        \<and> joinRoom (snd (joinRoom s1 now1 pid1 (r_id room0) ''Host'' p)) now2 pid2
              (r_id room0) ''Host'' p
            = (Inr (room0, creator_row now0 c (r_id room0)), s1))"
proof (intro conjI impI)
  assume "\<not> isl (joinRoomSchema roomId nm pw)
      \<and> select_room (run reqs) roomId = room # rest
      \<and> is_active room \<and> \<not> (truthy (r_password room) \<and> r_password room \<noteq> pw)
      \<and> int (length (active_in_room (run reqs) roomId)) < max_participants room
      \<and> q \<in> set (active_in_room (run reqs) roomId) \<and> name q = nm"
  then show "joinRoom (run reqs) now pid roomId nm pw = (Inr (room, q), run reqs)"
    by (intro rejoin_existing) simp_all
next
  assume a: "createRoom (run reqs) now0 rnd cid t d p r m = (Inr (room0, c), s1)
        \<and> (\<forall>i<12. rnd i < 36)"
  show "p_id (creator_row now0 c (r_id room0)) = c" by (simp add: creator_row_def)
  from a have ok: "createRoom (run reqs) now0 rnd cid t d p r m = (Inr (room0, c), s1)"
    and rnd: "\<forall>i<12. rnd i < 36" by simp_all
  show 1: "joinRoom s1 now1 pid1 (r_id room0) ''Host'' p
            = (Inr (room0, creator_row now0 c (r_id room0)), s1)"
    by (rule rejoin_creator[OF ok rnd])
  show "joinRoom (snd (joinRoom s1 now1 pid1 (r_id room0) ''Host'' p)) now2 pid2
              (r_id room0) ''Host'' p
            = (Inr (room0, creator_row now0 c (r_id room0)), s1)"
    unfolding 1 by (simp add: rejoin_creator[OF ok rnd])
qed

theorem joinRoom_reconciliation_witness:
  "\<not> isl (fst (createRoom (run []) 0 (\<lambda>i. i) ''c1'' ''Standup'' None (Some ''secret'') None
                 (Some 2)))
   \<and> fst (joinRoom
        (snd (createRoom (run []) 0 (\<lambda>i. i) ''c1'' ''Standup'' None (Some ''secret'') None
                 (Some 2)))
        4000 ''x1'' ''abcdefghijkl'' ''Host'' (Some ''secret''))
      = fst (joinRoom
        (snd (joinRoom
          (snd (createRoom (run []) 0 (\<lambda>i. i) ''c1'' ''Standup'' None (Some ''secret'') None
                 (Some 2)))
          4000 ''x1'' ''abcdefghijkl'' ''Host'' (Some ''secret'')))
        8000 ''x2'' ''abcdefghijkl'' ''Host'' (Some ''secret''))
   \<and> p_id (snd (projr (fst (joinRoom
        (snd (createRoom (run []) 0 (\<lambda>i. i) ''c1'' ''Standup'' None (Some ''secret'') None
                 (Some 2)))
        4000 ''x1'' ''abcdefghijkl'' ''Host'' (Some ''secret''))))) = ''c1''
   \<and> hd (active_in_room
            (run [CreateRoom 0 (\<lambda>i. i) ''c1'' ''Standup'' None None None (Some 3),
                  JoinRoom 5000 ''p2'' ''abcdefghijkl'' ''Bob'' None]) ''abcdefghijkl'')
      \<in> set (active_in_room
            (run [CreateRoom 0 (\<lambda>i. i) ''c1'' ''Standup'' None None None (Some 3),
                  JoinRoom 5000 ''p2'' ''abcdefghijkl'' ''Bob'' None]) ''abcdefghijkl'')
   \<and> joinRoom (run [CreateRoom 0 (\<lambda>i. i) ''c1'' ''Standup'' None None None (Some 3),
                     JoinRoom 5000 ''p2'' ''abcdefghijkl'' ''Bob'' None])
         9000 ''x3'' ''abcdefghijkl'' ''Host'' None
      = (Inr (hd (select_room
                    (run [CreateRoom 0 (\<lambda>i. i) ''c1'' ''Standup'' None None None (Some 3),
                          JoinRoom 5000 ''p2'' ''abcdefghijkl'' ''Bob'' None]) ''abcdefghijkl''),
              hd (active_in_room
                    (run [CreateRoom 0 (\<lambda>i. i) ''c1'' ''Standup'' None None None (Some 3),
                          JoinRoom 5000 ''p2'' ''abcdefghijkl'' ''Bob'' None]) ''abcdefghijkl'')),
         run [CreateRoom 0 (\<lambda>i. i) ''c1'' ''Standup'' None None None (Some 3),
              JoinRoom 5000 ''p2'' ''abcdefghijkl'' ''Bob'' None])"
  (is "?A \<and> ?C \<and> ?D \<and> ?E \<and> ?F")
proof -
  let ?r = "''abcdefghijkl''"
  let ?c = "createRoom (run []) 0 (\<lambda>i. i) ''c1'' ''Standup'' None (Some ''secret'') None (Some 2)"
  let ?S = "run [CreateRoom 0 (\<lambda>i. i) ''c1'' ''Standup'' None None None (Some 3),
                 JoinRoom 5000 ''p2'' ''abcdefghijkl'' ''Bob'' None]"
  have a: ?A by code_simp
  have b: "\<forall>i<12. (\<lambda>i::nat. i) i < 36" by simp
  from a obtain room0 c s1 where ce: "?c = (Inr (room0, c), s1)"
    by (cases ?c; cases "fst ?c") auto
  have rid: "r_id (fst (projr (fst ?c))) = ?r" by code_simp
  with ce have rid0: "r_id room0 = ?r" by simp
  have cid: "snd (projr (fst ?c)) = ''c1''" by code_simp
  with ce have c1: "c = ''c1''" by simp
  from joinRoom_reconciliation[where reqs = "[]" and ?now0.0 = 0 and rnd = "\<lambda>i. i"
      and cid = "''c1''" and t = "''Standup''" and d = None and p = "Some ''secret''"
      and r = None and m = "Some 2" and ?room0.0 = room0 and c = c and ?s1.0 = s1
      and ?now1.0 = 4000 and ?pid1.0 = "''x1''" and ?now2.0 = 8000 and ?pid2.0 = "''x2''"] ce b
  have j: "p_id (creator_row 0 c (r_id room0)) = c"
    "joinRoom s1 4000 ''x1'' (r_id room0) ''Host'' (Some ''secret'')
       = (Inr (room0, creator_row 0 c (r_id room0)), s1)"
    "joinRoom (snd (joinRoom s1 4000 ''x1'' (r_id room0) ''Host'' (Some ''secret''))) 8000 ''x2''
       (r_id room0) ''Host'' (Some ''secret'')
       = (Inr (room0, creator_row 0 c (r_id room0)), s1)"
    by blast+
  from j ce rid0 c1 have c': ?C and d: ?D by simp_all
  have v: "\<not> isl (joinRoomSchema ?r ''Host'' None)" by code_simp
  have sel: "select_room ?S ?r = hd (select_room ?S ?r) # tl (select_room ?S ?r)" by code_simp
  have act: "is_active (hd (select_room ?S ?r))" by code_simp
  have pw: "\<not> (truthy (r_password (hd (select_room ?S ?r)))
      \<and> r_password (hd (select_room ?S ?r)) \<noteq> None)" by code_simp
  have cnt: "int (length (active_in_room ?S ?r)) < max_participants (hd (select_room ?S ?r))"
    by code_simp
  have e: ?E by code_simp
  have n: "name (hd (active_in_room ?S ?r)) = ''Host''" by code_simp
  from joinRoom_reconciliation[where roomId = ?r and nm = "''Host''" and pw = None
      and reqs = "[CreateRoom 0 (\<lambda>i. i) ''c1'' ''Standup'' None None None (Some 3),
        JoinRoom 5000 ''p2'' ''abcdefghijkl'' ''Bob'' None]"
      and room = "hd (select_room ?S ?r)" and rest = "tl (select_room ?S ?r)"
      and q = "hd (active_in_room ?S ?r)" and now = 9000 and pid = "''x3''"] v sel act pw cnt e n
  have f: ?F by blast
  from a c' d e f show ?thesis by blast
qed

text \<open>
  The claim as it was stated fails: once the room is full, a join under the name of a
  participant who is present is refused with \<open>Conflict\<close> and returns no participant.
\<close>

theorem joinRoom_reconciliation_counterexample:
  "name (hd (active_in_room
        (run [CreateRoom 0 (\<lambda>i. i) ''c1'' ''Standup'' None None None (Some 2),
              JoinRoom 5000 ''p2'' ''abcdefghijkl'' ''Bob'' None]) ''abcdefghijkl'')) = ''Host''
   \<and> length (active_in_room
        (run [CreateRoom 0 (\<lambda>i. i) ''c1'' ''Standup'' None None None (Some 2),
              JoinRoom 5000 ''p2'' ''abcdefghijkl'' ''Bob'' None]) ''abcdefghijkl'') = 2
   \<and> fst (joinRoom
        (run [CreateRoom 0 (\<lambda>i. i) ''c1'' ''Standup'' None None None (Some 2),
              JoinRoom 5000 ''p2'' ''abcdefghijkl'' ''Bob'' None])
        9000 ''x3'' ''abcdefghijkl'' ''Host'' None) = Inl Conflict"
  by code_simp

section \<open>The hub's join-room handler\<close>

lemma filter_modified_key:
  fixes xs :: "('k \<times> 'v) list"
  assumes "\<And>c. \<not> P (k, c)"
  shows "map fst (filter P (map (\<lambda>(k', c). if k' = k then (k', f c) else (k', c)) xs))
       = map fst (filter P xs)"
  by (induction xs) (auto simp: assms split: if_splits)

lemma map_of_modified:
  "map_of (map (\<lambda>(k', c). if k' = k then (k', f c) else (k', c)) xs) k
     = map_option f (map_of xs k)"
  by (induction xs) auto

lemma recipients_modify_client:
  "recipients (modify_client h k f) roomId (Some k) = recipients h roomId (Some k)"
  unfolding recipients_def modify_client_def
  by (simp add: filter_modified_key)

lemma recipients_cong:
  "connectedClients h' = connectedClients h \<Longrightarrow> recipients h' roomId x = recipients h roomId x"
  by (simp add: recipients_def)

lemma recipients_not_self: "k \<notin> set (recipients h roomId (Some k))"
  by (auto simp: recipients_def)

lemma recipients_set:
  "set (recipients h roomId (Some k))
     = {c. \<exists>cl. (c, cl) \<in> set (connectedClients h) \<and> c \<noteq> k
              \<and> c_roomId cl = Some roomId \<and> ws_open cl}"
  by (force simp: recipients_def)

lemma modify_client_fields:
  "outbox (modify_client h k f) = outbox h"
  "roomClientCount (modify_client h k f) = roomClientCount h"
  "map_of (connectedClients (modify_client h k f)) k = map_option f (map_of (connectedClients h) k)"
  by (simp_all add: modify_client_def map_of_modified)

lemma broadcastToRoom_fields:
  "outbox (broadcastToRoom h r msg x) = outbox h @ map (\<lambda>c. (c, msg)) (recipients h r x)"
  "roomClientCount (broadcastToRoom h r msg x) = roomClientCount h"
  "connectedClients (broadcastToRoom h r msg x) = connectedClients h"
  by (simp_all add: broadcastToRoom_def)

lemma leaveRoomInternal_fields:
  assumes "map_of (connectedClients h) k = Some client"
  shows "outbox (leaveRoomInternal h k old)
           = outbox h @ map (\<lambda>c. (c, ParticipantLeft (c_participantId client) old))
                          (recipients h old (Some k))"
    and "recipients (leaveRoomInternal h k old) roomId (Some k) = recipients h roomId (Some k)"
    and "map_of (connectedClients (leaveRoomInternal h k old)) k
           = Some (client\<lparr>c_roomId := None, c_participantId := None\<rparr>)"
proof -
  define h1 where "h1 = broadcastToRoom h old (ParticipantLeft (c_participantId client) old) (Some k)"
  define h2 where "h2 = (if count_of h1 old > 0
                     then h1\<lparr>roomClientCount := (roomClientCount h1)(old \<mapsto> count_of h1 old - 1)\<rparr>
                     else h1)"
  have l: "leaveRoomInternal h k old
      = modify_client h2 k (\<lambda>c. c\<lparr>c_roomId := None, c_participantId := None\<rparr>)"
    using assms by (simp add: leaveRoomInternal_def Let_def h1_def h2_def)
  have c2: "connectedClients h2 = connectedClients h"
    by (simp add: h2_def h1_def broadcastToRoom_fields)
  have o2: "outbox h2 = outbox h @ map (\<lambda>c. (c, ParticipantLeft (c_participantId client) old))
                          (recipients h old (Some k))"
    by (simp add: h2_def h1_def broadcastToRoom_fields)
  show "outbox (leaveRoomInternal h k old)
           = outbox h @ map (\<lambda>c. (c, ParticipantLeft (c_participantId client) old))
                          (recipients h old (Some k))"
    by (simp add: l modify_client_fields o2)
  show "recipients (leaveRoomInternal h k old) roomId (Some k) = recipients h roomId (Some k)"
    by (simp add: l recipients_modify_client recipients_cong[OF c2])
  show "map_of (connectedClients (leaveRoomInternal h k old)) k
           = Some (client\<lparr>c_roomId := None, c_participantId := None\<rparr>)"
    by (simp add: l modify_client_fields c2 assms)
qed

lemma handleJoinRoom_full:
  assumes "map_of (connectedClients h) k = Some client" "count_of h roomId \<ge> 10"
  shows "handleJoinRoom h k roomId participantId
           = h\<lparr>outbox := outbox h @ [(k, ErrorMessage ''Room is full'')]\<rparr>"
  using assms by (simp add: handleJoinRoom_def Let_def MAX_CLIENTS_PER_ROOM_def)

lemma handleJoinRoom_accepted:
  assumes cl: "map_of (connectedClients h) k = Some client" and lt: "count_of h roomId < 10"
  shows "map_of (connectedClients (handleJoinRoom h k roomId participantId)) k
           = Some (client\<lparr>c_roomId := Some roomId, c_participantId := Some participantId\<rparr>)"
    and "count_of (handleJoinRoom h k roomId participantId) roomId = count_of h roomId + 1"
    and "outbox (handleJoinRoom h k roomId participantId)
           = outbox h
             @ (if truthy (c_roomId client)
                then map (\<lambda>c. (c, ParticipantLeft (c_participantId client) (the (c_roomId client))))
                       (recipients h (the (c_roomId client)) (Some k))
                else [])
             @ map (\<lambda>c. (c, ParticipantJoined participantId roomId)) (recipients h roomId (Some k))"
proof -
  define h1 where "h1 = (if truthy (c_roomId client)
                           then leaveRoomInternal h k (the (c_roomId client)) else h)"
  define h2 where "h2 = modify_client h1 k
                            (\<lambda>c. c\<lparr>c_roomId := Some roomId, c_participantId := Some participantId\<rparr>)"
  define h3 where "h3 = h2\<lparr>roomClientCount := (roomClientCount h2)(roomId \<mapsto> count_of h roomId + 1)\<rparr>"
  have e: "handleJoinRoom h k roomId participantId
      = broadcastToRoom h3 roomId (ParticipantJoined participantId roomId) (Some k)"
    using cl lt by (simp add: handleJoinRoom_def Let_def MAX_CLIENTS_PER_ROOM_def h1_def h2_def h3_def)
  have m1: "map_of (connectedClients h1) k
      = Some (if truthy (c_roomId client)
              then client\<lparr>c_roomId := None, c_participantId := None\<rparr> else client)"
    by (simp add: h1_def leaveRoomInternal_fields(3)[OF cl] cl)
  have o1: "outbox h1 = outbox h
             @ (if truthy (c_roomId client)
                then map (\<lambda>c. (c, ParticipantLeft (c_participantId client) (the (c_roomId client))))
                       (recipients h (the (c_roomId client)) (Some k))
                else [])"
    by (simp add: h1_def leaveRoomInternal_fields(1)[OF cl])
  have r1: "recipients h1 roomId (Some k) = recipients h roomId (Some k)"
    by (simp add: h1_def leaveRoomInternal_fields(2)[OF cl])
  have c3: "connectedClients h3 = connectedClients h2" by (simp add: h3_def)
  have r3: "recipients h3 roomId (Some k) = recipients h roomId (Some k)"
    by (simp add: recipients_cong[OF c3] h2_def recipients_modify_client r1)
  have o3: "outbox h3 = outbox h1" by (simp add: h3_def h2_def modify_client_fields)
  show "map_of (connectedClients (handleJoinRoom h k roomId participantId)) k
           = Some (client\<lparr>c_roomId := Some roomId, c_participantId := Some participantId\<rparr>)"
    by (simp add: e broadcastToRoom_fields c3 h2_def modify_client_fields m1)
  show "count_of (handleJoinRoom h k roomId participantId) roomId = count_of h roomId + 1"
    by (simp add: e count_of_def broadcastToRoom_fields h3_def)
  show "outbox (handleJoinRoom h k roomId participantId)
           = outbox h
             @ (if truthy (c_roomId client)
                then map (\<lambda>c. (c, ParticipantLeft (c_participantId client) (the (c_roomId client))))
                       (recipients h (the (c_roomId client)) (Some k))
                else [])
             @ map (\<lambda>c. (c, ParticipantJoined participantId roomId)) (recipients h roomId (Some k))"
    by (simp add: e broadcastToRoom_fields o3 o1 r3)
qed

text \<open>
  C7 (as amended). For a connected client, \<open>handleJoinRoom\<close> compares the hub's counter of the
  room with the constant \<open>MAX_CLIENTS_PER_ROOM = 10\<close>, not with the room's
  \<open>max_participants\<close>. When the counter has reached 10 it only sends an error to the
  requester. Otherwise it binds the client to the room and the participant, sets the counter
  to its old value plus one, and sends \<open>participant-joined\<close> to the open connections bound to
  that room other than the joiner, after the \<open>participant-left\<close> notices of a room the client
  was bound to before.
\<close>

theorem hub_join_room:
  "MAX_CLIENTS_PER_ROOM = 10
   \<and> (map_of (connectedClients h) clientId = Some client \<longrightarrow>
       (count_of h roomId \<ge> MAX_CLIENTS_PER_ROOM \<longrightarrow>
          handleJoinRoom h clientId roomId participantId
            = h\<lparr>outbox := outbox h @ [(clientId, ErrorMessage ''Room is full'')]\<rparr>)
     \<and> (count_of h roomId < MAX_CLIENTS_PER_ROOM \<longrightarrow>
          map_of (connectedClients (handleJoinRoom h clientId roomId participantId)) clientId
            = Some (client\<lparr>c_roomId := Some roomId, c_participantId := Some participantId\<rparr>)
        \<and> count_of (handleJoinRoom h clientId roomId participantId) roomId
            = count_of h roomId + 1
        \<and> outbox (handleJoinRoom h clientId roomId participantId)
            = outbox h
              @ (if truthy (c_roomId client)
                 then map (\<lambda>c. (c, ParticipantLeft (c_participantId client)
                                      (the (c_roomId client))))
                        (recipients h (the (c_roomId client)) (Some clientId))
                 else [])
              @ map (\<lambda>c. (c, ParticipantJoined participantId roomId))
                  (recipients h roomId (Some clientId))
        \<and> clientId \<notin> set (recipients h roomId (Some clientId))
        \<and> set (recipients h roomId (Some clientId))
            = {c. \<exists>cl. (c, cl) \<in> set (connectedClients h) \<and> c \<noteq> clientId
                     \<and> c_roomId cl = Some roomId \<and> ws_open cl}))"
proof (intro conjI impI)
  show "MAX_CLIENTS_PER_ROOM = 10" by (simp add: MAX_CLIENTS_PER_ROOM_def)
next
  assume cl: "map_of (connectedClients h) clientId = Some client"
    and "count_of h roomId \<ge> MAX_CLIENTS_PER_ROOM"
  then show "handleJoinRoom h clientId roomId participantId
            = h\<lparr>outbox := outbox h @ [(clientId, ErrorMessage ''Room is full'')]\<rparr>"
    by (intro handleJoinRoom_full) (simp_all add: MAX_CLIENTS_PER_ROOM_def)
next
  assume cl: "map_of (connectedClients h) clientId = Some client"
    and "count_of h roomId < MAX_CLIENTS_PER_ROOM"
  then have lt: "count_of h roomId < 10" by (simp add: MAX_CLIENTS_PER_ROOM_def)
  note A = handleJoinRoom_accepted[OF cl lt, of participantId]
  from A(1) show "map_of (connectedClients (handleJoinRoom h clientId roomId participantId)) clientId
            = Some (client\<lparr>c_roomId := Some roomId, c_participantId := Some participantId\<rparr>)" .
  from A(2) show "count_of (handleJoinRoom h clientId roomId participantId) roomId
            = count_of h roomId + 1" .
  from A(3) show "outbox (handleJoinRoom h clientId roomId participantId)
            = outbox h
              @ (if truthy (c_roomId client)
                 then map (\<lambda>c. (c, ParticipantLeft (c_participantId client)
                                      (the (c_roomId client))))
                        (recipients h (the (c_roomId client)) (Some clientId))
                 else [])
              @ map (\<lambda>c. (c, ParticipantJoined participantId roomId))
                  (recipients h roomId (Some clientId))" .
  show "clientId \<notin> set (recipients h roomId (Some clientId))" by (rule recipients_not_self)
  show "set (recipients h roomId (Some clientId))
            = {c. \<exists>cl. (c, cl) \<in> set (connectedClients h) \<and> c \<noteq> clientId
                     \<and> c_roomId cl = Some roomId \<and> ws_open cl}" by (rule recipients_set)
qed

theorem hub_join_room_witness:
  "map_of (connectedClients
       \<lparr>connectedClients = [(''k1'', (new_client 0)\<lparr>c_roomId := Some ''r''\<rparr>),
                            (''k2'', (new_client 0)\<lparr>c_roomId := Some ''r'', ws_open := False\<rparr>),
                            (''k3'', new_client 0)],
        roomClientCount = [''r'' \<mapsto> 2], outbox = []\<rparr>) ''k3'' = Some (new_client 0)
   \<and> outbox (handleJoinRoom
       \<lparr>connectedClients = [(''k1'', (new_client 0)\<lparr>c_roomId := Some ''r''\<rparr>),
                            (''k2'', (new_client 0)\<lparr>c_roomId := Some ''r'', ws_open := False\<rparr>),
                            (''k3'', new_client 0)],
        roomClientCount = [''r'' \<mapsto> 2], outbox = []\<rparr> ''k3'' ''r'' ''p3'')
      = [(''k1'', ParticipantJoined ''p3'' ''r'')]
   \<and> count_of (handleJoinRoom
       \<lparr>connectedClients = [(''k1'', (new_client 0)\<lparr>c_roomId := Some ''r''\<rparr>),
                            (''k2'', (new_client 0)\<lparr>c_roomId := Some ''r'', ws_open := False\<rparr>),
                            (''k3'', new_client 0)],
        roomClientCount = [''r'' \<mapsto> 2], outbox = []\<rparr> ''k3'' ''r'' ''p3'') ''r'' = 3
   \<and> outbox (handleJoinRoom
       \<lparr>connectedClients = [(''k1'', (new_client 0)\<lparr>c_roomId := Some ''r''\<rparr>),
                            (''k2'', (new_client 0)\<lparr>c_roomId := Some ''r'', ws_open := False\<rparr>),
                            (''k3'', new_client 0)],
        roomClientCount = [''r'' \<mapsto> 10], outbox = []\<rparr> ''k3'' ''r'' ''p3'')
      = [(''k3'', ErrorMessage ''Room is full'')]"
  (is "?A \<and> ?B \<and> ?C \<and> ?D")
proof -
  let ?cs = "[(''k1'', (new_client 0)\<lparr>c_roomId := Some ''r''\<rparr>),
              (''k2'', (new_client 0)\<lparr>c_roomId := Some ''r'', ws_open := False\<rparr>),
              (''k3'', new_client 0)]"
  let ?h = "\<lparr>connectedClients = ?cs, roomClientCount = [''r'' \<mapsto> 2], outbox = []\<rparr>"
  let ?f = "\<lparr>connectedClients = ?cs, roomClientCount = [''r'' \<mapsto> 10], outbox = []\<rparr>"
  have a: ?A by simp
  have lt: "count_of ?h ''r'' < MAX_CLIENTS_PER_ROOM"
    by (simp add: count_of_def MAX_CLIENTS_PER_ROOM_def)
  have nt: "\<not> truthy (c_roomId (new_client 0))" by (simp add: truthy_def new_client_def)
  have rc: "recipients ?h ''r'' (Some ''k3'') = [''k1'']"
    by (simp add: recipients_def new_client_def)
  from hub_join_room[of ?h "''k3''" "new_client 0" "''r''" "''p3''"] a lt
  have "outbox (handleJoinRoom ?h ''k3'' ''r'' ''p3'')
            = outbox ?h
              @ (if truthy (c_roomId (new_client 0))
                 then map (\<lambda>c. (c, ParticipantLeft (c_participantId (new_client 0))
                                      (the (c_roomId (new_client 0)))))
                        (recipients ?h (the (c_roomId (new_client 0))) (Some ''k3''))
                 else [])
              @ map (\<lambda>c. (c, ParticipantJoined ''p3'' ''r'')) (recipients ?h ''r'' (Some ''k3''))"
    and "count_of (handleJoinRoom ?h ''k3'' ''r'' ''p3'') ''r'' = count_of ?h ''r'' + 1"
    by blast+
  then have b: ?B and c: ?C by (simp_all add: nt rc count_of_def)
  have a': "map_of (connectedClients ?f) ''k3'' = Some (new_client 0)" by simp
  have ge: "count_of ?f ''r'' \<ge> MAX_CLIENTS_PER_ROOM"
    by (simp add: count_of_def MAX_CLIENTS_PER_ROOM_def)
  from hub_join_room[of ?f "''k3''" "new_client 0" "''r''" "''p3''"] a' ge
  have "handleJoinRoom ?f ''k3'' ''r'' ''p3''
      = ?f\<lparr>outbox := outbox ?f @ [(''k3'', ErrorMessage ''Room is full'')]\<rparr>" by blast
  then have d: ?D by simp
  from a b c d show ?thesis by blast
qed

text \<open>
  The claim as it was stated fails: for a room whose \<open>max_participants\<close> is 2, which REST
  admission treats as full with two participants, the hub with a counter of 2 still binds a
  third connection.
\<close>

theorem hub_join_room_counterexample:
  "max_participants (hd (select_room
       (run [CreateRoom 0 (\<lambda>i. i) ''c1'' ''Standup'' None None None (Some 2),
             JoinRoom 5000 ''p2'' ''abcdefghijkl'' ''Bob'' None]) ''abcdefghijkl'')) = 2
   \<and> fst (joinRoom
       (run [CreateRoom 0 (\<lambda>i. i) ''c1'' ''Standup'' None None None (Some 2),
             JoinRoom 5000 ''p2'' ''abcdefghijkl'' ''Bob'' None])
       9000 ''p3'' ''abcdefghijkl'' ''Carol'' None) = Inl Conflict
   \<and> count_of
       (handleJoinRoom
         (handleJoinRoom
            \<lparr>connectedClients = [(''k1'', new_client 0), (''k2'', new_client 0),
                                 (''k3'', new_client 0)],
             roomClientCount = Map.empty, outbox = []\<rparr>
            ''k1'' ''abcdefghijkl'' ''c1'')
         ''k2'' ''abcdefghijkl'' ''p2'') ''abcdefghijkl'' = 2
   \<and> map_option c_roomId (map_of (connectedClients
       (handleJoinRoom
         (handleJoinRoom
           (handleJoinRoom
              \<lparr>connectedClients = [(''k1'', new_client 0), (''k2'', new_client 0),
                                   (''k3'', new_client 0)],
               roomClientCount = Map.empty, outbox = []\<rparr>
              ''k1'' ''abcdefghijkl'' ''c1'')
           ''k2'' ''abcdefghijkl'' ''p2'')
         ''k3'' ''abcdefghijkl'' ''p3'')) ''k3'') = Some (Some ''abcdefghijkl'')"
  by code_simp

section \<open>Rows of participants who have left\<close>

lemma map_guarded:
  "p \<in> set xs \<Longrightarrow> \<not> G p \<Longrightarrow> p \<in> set (map (\<lambda>x. if G x then f x else x) xs)"
  by (induction xs) auto

lemma set_left_departed:
  "p \<in> set (participants s) \<Longrightarrow> left_at p \<noteq> None \<Longrightarrow> p \<in> set (participants (set_left s now i))"
  unfolding set_left_def by (simp del: set_map) (rule map_guarded, simp_all)

lemma mark_all_left_departed:
  "p \<in> set (participants s) \<Longrightarrow> left_at p \<noteq> None
   \<Longrightarrow> p \<in> set (participants (mark_all_left (deactivate_room s i) now i))"
  unfolding closed_room_participants by (rule map_guarded) simp_all

lemma update_active_departed:
  "p \<in> set (participants s) \<Longrightarrow> left_at p \<noteq> None
   \<Longrightarrow> p \<in> set (participants (update_active s i f))"
  unfolding update_active_def by (simp del: set_map) (rule map_guarded, simp_all)

lemma createRoom_departed:
  assumes "p \<in> set (participants s)"
  shows "p \<in> set (participants (snd (createRoom s now rnd cid t d pw r m)))"
proof (cases "createRoomSchema t d pw r m")
  case (Inl e)
  then show ?thesis using assms by (simp add: createRoom_def)
next
  case (Inr b)
  obtain t' d' p' r' m' where b: "b = (t', d', p', r', m')" by (cases b) auto
  have eq: "snd (createRoom s now rnd cid t d pw r m)
        = snd (createRoom_handler s now rnd cid t' d' p' (Some r') (Some m'))"
    by (simp add: createRoom_def Inr b)
  from createRoom_handler_cases[of s now rnd cid t' d' p' "Some r'" "Some m'"]
  have "participants (snd (createRoom_handler s now rnd cid t' d' p' (Some r') (Some m')))
          = participants s
      \<or> (\<exists>x. participants (snd (createRoom_handler s now rnd cid t' d' p' (Some r') (Some m')))
          = participants s @ [x])"
    by (elim disjE exE conjE) simp_all
  with assms show ?thesis unfolding eq by auto
qed

lemma joinRoom_departed:
  assumes "p \<in> set (participants s)"
  shows "p \<in> set (participants (snd (joinRoom s now pid rid nm pw)))"
proof (cases "isl (joinRoomSchema rid nm pw)")
  case True
  then show ?thesis using assms by (simp add: joinRoom_invalid)
next
  case False
  from joinRoom_handler_state[of s now pid rid "trim nm" pw]
  have "participants (snd (joinRoom_handler s now pid rid (trim nm) pw)) = participants s
      \<or> (\<exists>x. participants (snd (joinRoom_handler s now pid rid (trim nm) pw))
              = participants s @ [x])"
    by (elim disjE conjE) simp_all
  with assms show ?thesis unfolding joinRoom_valid[OF False] by auto
qed

text \<open>
  Every request other than the self-service update leaves the row of a participant who has
  left exactly as it is.
\<close>

lemma departed_row_kept:
  assumes p: "p \<in> set (participants s)" "left_at p \<noteq> None"
    and r: "\<And>pid a v sc. r \<noteq> UpdateParticipant pid a v sc"
  shows "p \<in> set (participants (handle s r))"
proof (cases r)
  case (CreateRoom now rnd cid t d pw rec m)
  then show ?thesis using createRoom_departed[OF p(1)] by simp
next
  case (JoinRoom now pid rid nm pw)
  then show ?thesis using joinRoom_departed[OF p(1)] by simp
next
  case (LeaveRoom now pid)
  then show ?thesis using p set_left_departed[OF p]
    by (simp add: leaveRoom_def split: option.splits)
next
  case (CheckTimeout now rid)
  then show ?thesis using p mark_all_left_departed[OF p]
    by (simp add: checkTimeout_def Let_def split: list.splits)
next
  case (EndMeeting now rid pid)
  then show ?thesis using p mark_all_left_departed[OF p]
    by (simp add: endMeeting_def split: list.splits)
next
  case (UpdateParticipant pid a v sc)
  with r show ?thesis by blast
next
  case (Kick now pid hid)
  then show ?thesis using p set_left_departed[OF p]
    by (simp add: kickParticipant_def split: sum.splits)
next
  case (Mute pid hid m)
  then show ?thesis using p update_active_departed[OF p]
    by (simp add: muteParticipant_def split: sum.splits option.splits)
next
  case (Video pid hid m)
  then show ?thesis using p update_active_departed[OF p]
    by (simp add: videoControl_def split: sum.splits option.splits)
next
  case (Screenshare pid hid m)
  then show ?thesis using p update_active_departed[OF p]
    by (simp add: screenshareControl_def split: sum.splits option.splits)
qed

section \<open>Self-service updates after leaving\<close>

text \<open>
  C8. After Bob has left (\<open>left_at\<close> is set), \<open>PUT /:participantId\<close> for Bob still succeeds
  and switches his \<open>is_audio_enabled\<close> off: the statement of that route has no
  \<open>left_at IS NULL\<close>. The host's mute of the same row, which has it, answers \<open>NotFound\<close> and
  changes nothing.
\<close>

theorem update_after_leave:
  "left_at (hd (filter (\<lambda>p. p_id p = ''p2'')
      (participants
        (run [CreateRoom 0 (\<lambda>i. i) ''c1'' ''Standup'' None None None (Some 2),
              JoinRoom 5000 ''p2'' ''abcdefghijkl'' ''Bob'' None,
              LeaveRoom 6000 (Some ''p2'')])))) = Some 6000
   \<and> is_audio_enabled (hd (filter (\<lambda>p. p_id p = ''p2'')
      (participants
        (run [CreateRoom 0 (\<lambda>i. i) ''c1'' ''Standup'' None None None (Some 2),
              JoinRoom 5000 ''p2'' ''abcdefghijkl'' ''Bob'' None,
              LeaveRoom 6000 (Some ''p2'')]))))
   \<and> fst (updateParticipant
        (run [CreateRoom 0 (\<lambda>i. i) ''c1'' ''Standup'' None None None (Some 2),
              JoinRoom 5000 ''p2'' ''abcdefghijkl'' ''Bob'' None,
              LeaveRoom 6000 (Some ''p2'')])
        ''p2'' (Some False) None None) = Inr ()
   \<and> \<not> is_audio_enabled (hd (filter (\<lambda>p. p_id p = ''p2'')
      (participants (snd (updateParticipant
        (run [CreateRoom 0 (\<lambda>i. i) ''c1'' ''Standup'' None None None (Some 2),
              JoinRoom 5000 ''p2'' ''abcdefghijkl'' ''Bob'' None,
              LeaveRoom 6000 (Some ''p2'')])
        ''p2'' (Some False) None None)))))
   \<and> muteParticipant
        (run [CreateRoom 0 (\<lambda>i. i) ''c1'' ''Standup'' None None None (Some 2),
              JoinRoom 5000 ''p2'' ''abcdefghijkl'' ''Bob'' None,
              LeaveRoom 6000 (Some ''p2'')])
        ''p2'' (Some ''c1'') (Some True)
      = (Inl NotFound,
         run [CreateRoom 0 (\<lambda>i. i) ''c1'' ''Standup'' None None None (Some 2),
              JoinRoom 5000 ''p2'' ''abcdefghijkl'' ''Bob'' None,
              LeaveRoom 6000 (Some ''p2'')])"
  by code_simp

section \<open>The chat buffer\<close>

lemma sliding_window:
  "drop (length (drop (length x - n) x @ ys) - n) (drop (length x - n) x @ ys)
     = drop (length (x @ ys) - n) (x @ ys)"
proof (cases "length x \<le> n")
  case True
  then show ?thesis by simp
next
  case False
  then have "length (x @ ys) - n = (length x - n) + length ys" by simp
  moreover have "length (drop (length x - n) x @ ys) - n = length ys" using False by simp
  ultimately show ?thesis by (simp add: drop_drop[symmetric] add.commute del: drop_drop)
qed

lemma sendMessage_invalid:
  "\<not> (truthy r \<and> truthy sn \<and> truthy c) \<Longrightarrow> sendMessage m i t r sn c = (Inl BadRequest, m)"
  by (auto simp: sendMessage_def)

lemma sendMessage_valid:
  assumes "truthy r" "truthy sn" "truthy c"
  shows "sendMessage m i t r sn c
     = (Inr \<lparr>m_id = i, m_roomId = the r, sender = the sn, content = the c, timestamp = t\<rparr>,
        m(the r \<mapsto> drop (length (getMessages m (the r)) + 1 - 100)
                       (getMessages m (the r)
                        @ [\<lparr>m_id = i, m_roomId = the r, sender = the sn, content = the c,
                            timestamp = t\<rparr>])))"
  using assms by (simp add: sendMessage_def Let_def getMessages_def)

lemma sendMessage_getMessages:
  "getMessages (snd (sendMessage m i t r sn c)) roomId
     = drop (length (getMessages m roomId @ appended (i, t, r, sn, c) roomId) - 100)
         (getMessages m roomId @ appended (i, t, r, sn, c) roomId)"
  if "length (getMessages m roomId) \<le> 100"
proof (cases "truthy r \<and> truthy sn \<and> truthy c")
  case False
  with that show ?thesis by (auto simp: sendMessage_invalid)
next
  case True
  then have v: "truthy r" "truthy sn" "truthy c" by simp_all
  show ?thesis
  proof (cases "the r = roomId")
    case True
    with v show ?thesis by (simp add: sendMessage_valid getMessages_def)
  next
    case False
    with v that show ?thesis by (simp add: sendMessage_valid getMessages_def)
  qed
qed

lemma sendAll_getMessages:
  "length (getMessages m roomId) \<le> 100 \<Longrightarrow>
   getMessages (sendAll m reqs) roomId
     = drop (length (getMessages m roomId @ concat (map (\<lambda>q. appended q roomId) reqs)) - 100)
         (getMessages m roomId @ concat (map (\<lambda>q. appended q roomId) reqs))"
proof (induction reqs arbitrary: m)
  case Nil
  then show ?case by simp
next
  case (Cons q reqs)
  obtain i t r sn c where q: "q = (i, t, r, sn, c)" by (cases q) auto
  define m' where "m' = snd (sendMessage m i t r sn c)"
  define x where "x = getMessages m roomId @ appended q roomId"
  define ys where "ys = concat (map (\<lambda>q. appended q roomId) reqs)"
  have g: "getMessages m' roomId = drop (length x - 100) x"
    unfolding m'_def x_def q by (rule sendMessage_getMessages[OF Cons.prems])
  then have "length (getMessages m' roomId) \<le> 100" by simp
  from Cons.IH[OF this] have "getMessages (sendAll m' reqs) roomId
      = drop (length (drop (length x - 100) x @ ys) - 100) (drop (length x - 100) x @ ys)"
    by (simp only: g ys_def)
  also have "\<dots> = drop (length (x @ ys) - 100) (x @ ys)" by (rule sliding_window)
  finally show ?case by (simp add: q m'_def x_def ys_def)
qed

text \<open>
  C9. After any sequence of send requests on an empty buffer, the messages listed for a room
  are the last \<open>min total 100\<close> of the messages appended to that room, oldest first; a room
  without an entry lists as empty; clearing a room empties its list and leaves the other
  rooms as they were.
\<close>

theorem chat_buffer_last_100:
  "getMessages (sendAll no_messages reqs) roomId
     = drop (length (concat (map (\<lambda>q. appended q roomId) reqs)) - 100)
         (concat (map (\<lambda>q. appended q roomId) reqs))
   \<and> length (getMessages (sendAll no_messages reqs) roomId)
     = min (length (concat (map (\<lambda>q. appended q roomId) reqs))) 100
   \<and> (m roomId = None \<longrightarrow> getMessages m roomId = [])
   \<and> getMessages (clearMessages m roomId) roomId = []
   \<and> (other \<noteq> roomId \<longrightarrow> getMessages (clearMessages m roomId) other = getMessages m other)"
proof -
  have e: "getMessages no_messages roomId = []" by (simp add: getMessages_def no_messages_def)
  then have "length (getMessages no_messages roomId) \<le> 100" by simp
  from sendAll_getMessages[OF this, of reqs]
  have 1: "getMessages (sendAll no_messages reqs) roomId
     = drop (length (concat (map (\<lambda>q. appended q roomId) reqs)) - 100)
         (concat (map (\<lambda>q. appended q roomId) reqs))" by (simp add: e)
  have 2: "length (getMessages (sendAll no_messages reqs) roomId)
     = min (length (concat (map (\<lambda>q. appended q roomId) reqs))) 100"
    unfolding 1 by simp
  have 3: "m roomId = None \<longrightarrow> getMessages m roomId = []" by (simp add: getMessages_def)
  have 4: "getMessages (clearMessages m roomId) roomId = []"
    by (simp add: getMessages_def clearMessages_def)
  have 5: "other \<noteq> roomId \<longrightarrow> getMessages (clearMessages m roomId) other = getMessages m other"
    by (simp add: getMessages_def clearMessages_def)
  from 1 2 3 4 5 show ?thesis by blast
qed

theorem chat_buffer_last_100_witness:
  "no_messages ''a'' = None \<and> getMessages no_messages ''a'' = []
   \<and> ''b'' \<noteq> ''a''
   \<and> getMessages (clearMessages
        (sendAll no_messages [(''1'', 5, Some ''b'', Some ''Bob'', Some ''hello'')]) ''a'') ''b''
      = [\<lparr>m_id = ''1'', m_roomId = ''b'', sender = ''Bob'', content = ''hello'', timestamp = 5\<rparr>]"
proof -
  have 1: "no_messages ''a'' = None" by (simp add: no_messages_def)
  have 2: "''b'' \<noteq> ''a''" by simp
  have 3: "getMessages (sendAll no_messages [(''1'', 5, Some ''b'', Some ''Bob'', Some ''hello'')])
      ''b''
      = [\<lparr>m_id = ''1'', m_roomId = ''b'', sender = ''Bob'', content = ''hello'', timestamp = 5\<rparr>]"
    using chat_buffer_last_100[of "[(''1'', 5, Some ''b'', Some ''Bob'', Some ''hello'')]" "''b''"
        no_messages "''b''"]
    by (simp add: truthy_def)
  from chat_buffer_last_100[of "[]" "''a''" no_messages "''b''"] 1
  have 4: "getMessages no_messages ''a'' = []" by blast
  from chat_buffer_last_100[of "[]" "''a''"
      "sendAll no_messages [(''1'', 5, Some ''b'', Some ''Bob'', Some ''hello'')]" "''b''"] 2
  have "getMessages (clearMessages
        (sendAll no_messages [(''1'', 5, Some ''b'', Some ''Bob'', Some ''hello'')]) ''a'') ''b''
      = getMessages (sendAll no_messages [(''1'', 5, Some ''b'', Some ''Bob'', Some ''hello'')])
          ''b''" by blast
  with 1 2 3 4 show ?thesis by simp
qed

section \<open>Sending a chat message\<close>

lemma sendMessage_listed:
  assumes "truthy r" "truthy sn" "truthy c"
  shows "getMessages (snd (sendMessage m i t r sn c)) (the r) \<noteq> []
       \<and> last (getMessages (snd (sendMessage m i t r sn c)) (the r))
          = \<lparr>m_id = i, m_roomId = the r, sender = the sn, content = the c, timestamp = t\<rparr>"
proof -
  define msg where
    "msg = \<lparr>m_id = i, m_roomId = the r, sender = the sn, content = the c, timestamp = t\<rparr>"
  define b where "b = getMessages m (the r)"
  have g: "getMessages (snd (sendMessage m i t r sn c)) (the r)
      = drop (length b + 1 - 100) (b @ [msg])"
    by (simp add: sendMessage_valid[OF assms] getMessages_def b_def msg_def)
  have n: "drop (length b + 1 - 100) (b @ [msg]) \<noteq> []" by simp
  then have "last (drop (length b + 1 - 100) (b @ [msg])) = last (b @ [msg])"
    by (intro last_drop) simp
  with n g show ?thesis by (simp add: msg_def)
qed

text \<open>
  C10. \<open>POST /send\<close> reads and writes the chat map only. With a non-empty room id, sender and
  content the message is stored and is the newest message that listing the room returns,
  whatever the database holds (no such room, or an inactive one); the database is left as it
  was, and replacing it changes neither the answer nor the chat map. Otherwise the answer is
  \<open>BadRequest\<close> and nothing changes.
\<close>

theorem sendChatMessage_ignores_rooms:
  "(truthy roomId \<and> truthy sender' \<and> truthy content' \<longrightarrow>
      fst (sendChatMessage sv msgId now roomId sender' content')
        = Inr \<lparr>m_id = msgId, m_roomId = the roomId, sender = the sender',
               content = the content', timestamp = now\<rparr>
    \<and> listChatMessages (snd (sendChatMessage sv msgId now roomId sender' content')) (the roomId)
        \<noteq> []
    \<and> last (listChatMessages (snd (sendChatMessage sv msgId now roomId sender' content'))
              (the roomId))
        = \<lparr>m_id = msgId, m_roomId = the roomId, sender = the sender',
           content = the content', timestamp = now\<rparr>)
   \<and> (\<not> (truthy roomId \<and> truthy sender' \<and> truthy content') \<longrightarrow>
        sendChatMessage sv msgId now roomId sender' content' = (Inl BadRequest, sv))
   \<and> (isl (fst (sendChatMessage sv msgId now roomId sender' content')) \<longrightarrow>
        fst (sendChatMessage sv msgId now roomId sender' content') = Inl BadRequest)
   \<and> db (snd (sendChatMessage sv msgId now roomId sender' content')) = db sv
   \<and> fst (sendChatMessage (sv\<lparr>db := st\<rparr>) msgId now roomId sender' content')
        = fst (sendChatMessage sv msgId now roomId sender' content')
   \<and> roomMessages (snd (sendChatMessage (sv\<lparr>db := st\<rparr>) msgId now roomId sender' content'))
        = roomMessages (snd (sendChatMessage sv msgId now roomId sender' content'))"
proof -
  obtain res m where sm: "sendMessage (roomMessages sv) msgId now roomId sender' content' = (res, m)"
    by fastforce
  have e: "sendChatMessage sv msgId now roomId sender' content' = (res, sv\<lparr>roomMessages := m\<rparr>)"
    by (simp add: sendChatMessage_def sm)
  have e': "sendChatMessage (sv\<lparr>db := st\<rparr>) msgId now roomId sender' content'
      = (res, sv\<lparr>db := st, roomMessages := m\<rparr>)"
    by (simp add: sendChatMessage_def sm)
  have 1: "fst (sendChatMessage sv msgId now roomId sender' content')
        = Inr \<lparr>m_id = msgId, m_roomId = the roomId, sender = the sender',
               content = the content', timestamp = now\<rparr>
    \<and> listChatMessages (snd (sendChatMessage sv msgId now roomId sender' content')) (the roomId)
        \<noteq> []
    \<and> last (listChatMessages (snd (sendChatMessage sv msgId now roomId sender' content'))
              (the roomId))
        = \<lparr>m_id = msgId, m_roomId = the roomId, sender = the sender',
           content = the content', timestamp = now\<rparr>"
    if v: "truthy roomId \<and> truthy sender' \<and> truthy content'"
  proof -
    from v have v': "truthy roomId" "truthy sender'" "truthy content'" by simp_all
    from sendMessage_valid[OF v', of "roomMessages sv" msgId now] sm
    have "res = Inr \<lparr>m_id = msgId, m_roomId = the roomId, sender = the sender',
               content = the content', timestamp = now\<rparr>" by simp
    moreover from sendMessage_listed[OF v', of "roomMessages sv" msgId now] sm
    have "getMessages m (the roomId) \<noteq> []"
      "last (getMessages m (the roomId))
        = \<lparr>m_id = msgId, m_roomId = the roomId, sender = the sender',
           content = the content', timestamp = now\<rparr>" by simp_all
    ultimately show ?thesis by (simp add: e listChatMessages_def)
  qed
  have 2: "sendChatMessage sv msgId now roomId sender' content' = (Inl BadRequest, sv)"
    if "\<not> (truthy roomId \<and> truthy sender' \<and> truthy content')"
    using sendMessage_invalid[OF that, of "roomMessages sv" msgId now]
    by (simp add: sendChatMessage_def)
  have 3: "fst (sendChatMessage sv msgId now roomId sender' content') = Inl BadRequest"
    if "isl (fst (sendChatMessage sv msgId now roomId sender' content'))"
  proof (cases "truthy roomId \<and> truthy sender' \<and> truthy content'")
    case True
    from 1[OF True] that show ?thesis by simp
  next
    case False
    from 2[OF False] show ?thesis by simp
  qed
  have 4: "db (snd (sendChatMessage sv msgId now roomId sender' content')) = db sv"
    by (simp add: e)
  have 5: "fst (sendChatMessage (sv\<lparr>db := st\<rparr>) msgId now roomId sender' content')
        = fst (sendChatMessage sv msgId now roomId sender' content')"
    by (simp add: e e')
  have 6: "roomMessages (snd (sendChatMessage (sv\<lparr>db := st\<rparr>) msgId now roomId sender' content'))
        = roomMessages (snd (sendChatMessage sv msgId now roomId sender' content'))"
    by (simp add: e e')
  from 1 2 3 4 5 6 show ?thesis by blast
qed

theorem sendChatMessage_ignores_rooms_witness:
  "select_room empty_store ''ghost'' = []
   \<and> fst (sendChatMessage \<lparr>db = empty_store, roomMessages = no_messages\<rparr> ''m1'' 7
            (Some ''ghost'') (Some ''Bob'') (Some ''hi''))
      = Inr \<lparr>m_id = ''m1'', m_roomId = ''ghost'', sender = ''Bob'', content = ''hi'',
             timestamp = 7\<rparr>
   \<and> last (listChatMessages
        (snd (sendChatMessage \<lparr>db = empty_store, roomMessages = no_messages\<rparr> ''m1'' 7
            (Some ''ghost'') (Some ''Bob'') (Some ''hi''))) ''ghost'')
      = \<lparr>m_id = ''m1'', m_roomId = ''ghost'', sender = ''Bob'', content = ''hi'', timestamp = 7\<rparr>
   \<and> \<not> is_active (hd (select_room
        (run [CreateRoom 0 (\<lambda>i. i) ''c1'' ''Standup'' None None None (Some 2),
              EndMeeting 1000 ''abcdefghijkl'' ''c1'']) ''abcdefghijkl''))
   \<and> fst (sendChatMessage
        \<lparr>db = run [CreateRoom 0 (\<lambda>i. i) ''c1'' ''Standup'' None None None (Some 2),
                   EndMeeting 1000 ''abcdefghijkl'' ''c1''],
         roomMessages = no_messages\<rparr> ''m2'' 2000
            (Some ''abcdefghijkl'') (Some ''Bob'') (Some ''still here''))
      = Inr \<lparr>m_id = ''m2'', m_roomId = ''abcdefghijkl'', sender = ''Bob'',
             content = ''still here'', timestamp = 2000\<rparr>
   \<and> sendChatMessage \<lparr>db = empty_store, roomMessages = no_messages\<rparr> ''m3'' 9
            (Some ''ghost'') (Some []) (Some ''hi'')
      = (Inl BadRequest, \<lparr>db = empty_store, roomMessages = no_messages\<rparr>)"
  (is "?A \<and> ?B \<and> ?C \<and> ?D \<and> ?E \<and> ?F")
proof -
  let ?sv = "\<lparr>db = empty_store, roomMessages = no_messages\<rparr>"
  let ?sw = "\<lparr>db = run [CreateRoom 0 (\<lambda>i. i) ''c1'' ''Standup'' None None None (Some 2),
                         EndMeeting 1000 ''abcdefghijkl'' ''c1''],
               roomMessages = no_messages\<rparr>"
  have a: ?A by (simp add: select_room_def empty_store_def)
  have t: "truthy (Some ''ghost'') \<and> truthy (Some ''Bob'') \<and> truthy (Some ''hi'')"
    by (simp add: truthy_def)
  from sendChatMessage_ignores_rooms[of "Some ''ghost''" "Some ''Bob''" "Some ''hi''" ?sv
      "''m1''" 7 empty_store] t
  have b: ?B and c: ?C by simp_all
  have d: ?D by code_simp
  have t2: "truthy (Some ''abcdefghijkl'') \<and> truthy (Some ''Bob'') \<and> truthy (Some ''still here'')"
    by (simp add: truthy_def)
  from sendChatMessage_ignores_rooms[of "Some ''abcdefghijkl''" "Some ''Bob''"
      "Some ''still here''" ?sw "''m2''" 2000 empty_store] t2
  have e: ?E by simp
  have n: "\<not> (truthy (Some ''ghost'') \<and> truthy (Some []) \<and> truthy (Some ''hi''))"
    by (simp add: truthy_def)
  from sendChatMessage_ignores_rooms[of "Some ''ghost''" "Some []" "Some ''hi''" ?sv
      "''m3''" 9 empty_store] n
  have f: ?F by blast
  from a b c d e f show ?thesis by blast
qed

end
